theory Spec2Isabelle
  imports Main
begin

section \<open>Errors\<close>

text \<open>
  The exceptions of main.py, as values. \<open>ValueError\<close> is raised by
  \<open>NetworkHelper.assign_ip\<close> for an unknown entity type, \<open>Exception\<close> by
  \<open>HomeAgent.process_registration\<close> for a request that fails its check; \<open>KeyError\<close> and
  \<open>IndexError\<close> are what a dictionary read of an absent key and a list read past the end
  raise. A function that mutates objects returns the objects together with its outcome,
  also when the outcome is an exception: what was written before a \<open>raise\<close> stays written.
\<close>

datatype error = ValueError string | Exception string | KeyError string | IndexError

section \<open>CryptographicHelper\<close>

text \<open>
  \<open>generate_hash\<close> and \<open>generate_hmac\<close> call \<open>hashlib.sha256\<close> and \<open>hmac.new\<close> of Python's
  standard library, which are not code of this repository: the two functions are
  parameters of the model, and every theorem holds for any pair of functions on strings.
  \<open>generate_nonce\<close> is \<open>secrets.token_hex(16)\<close>; the token it returns is an argument of the
  model function whose source calls it.
\<close>

record crypto =
  generate_hash :: "string \<Rightarrow> string"
  generate_hmac :: "string \<Rightarrow> string \<Rightarrow> string"

section \<open>NetworkHelper\<close>

text \<open>
  Python renders the integer in \<open>f"{network_id}.{secrets.randbelow(255)}"\<close> in decimal;
  \<open>str_nat\<close> is that rendering and \<open>ip_of\<close> the whole f-string.
\<close>

definition digit_char :: "nat \<Rightarrow> char" where
  "digit_char d = ''0123456789'' ! d"

fun str_nat :: "nat \<Rightarrow> string" where
  "str_nat n = (if n < 10 then [digit_char n] else str_nat (n div 10) @ [digit_char (n mod 10)])"

declare str_nat.simps [simp del]

definition network_id_map :: "string \<Rightarrow> string option" where
  "network_id_map = map_of [(''mn'', ''10.1.0''), (''fa'', ''192.168.2''), (''ha'', ''192.168.1'')]"

definition ip_of :: "string \<Rightarrow> nat \<Rightarrow> string" where
  "ip_of network_id d = network_id @ ''.'' @ str_nat d"

text \<open>
  The \<open>while True\<close> loop of \<open>assign_ip\<close>. \<open>draws i\<close> is what the \<open>i\<close>-th call of
  \<open>secrets.randbelow(255)\<close> returns within this call of \<open>assign_ip\<close>. The loop has no exit
  but its \<open>return\<close>, so it is a partial function: \<open>None\<close> is a loop that never returns.
  The result is the address and the class attribute \<open>assigned_ips\<close> after the call.
\<close>

partial_function (option) assign_ip_loop ::
  "string \<Rightarrow> (nat \<Rightarrow> nat) \<Rightarrow> nat \<Rightarrow> string set \<Rightarrow> (string \<times> string set) option" where
  "assign_ip_loop network_id draws i assigned_ips =
     (let ip_address = ip_of network_id (draws i) in
      if ip_address \<notin> assigned_ips
      then Some (ip_address, insert ip_address assigned_ips)
      else assign_ip_loop network_id draws (Suc i) assigned_ips)"

definition assign_ip ::
  "string \<Rightarrow> (nat \<Rightarrow> nat) \<Rightarrow> string set \<Rightarrow> ((error + string) \<times> string set) option" where
  "assign_ip entity_type draws assigned_ips =
     (case network_id_map entity_type of
        None \<Rightarrow> Some (Inl (ValueError (''Unknown entity type: '' @ entity_type)), assigned_ips)
      | Some network_id \<Rightarrow>
          (case assign_ip_loop network_id draws 0 assigned_ips of
             None \<Rightarrow> None
           | Some (ip_address, assigned_ips') \<Rightarrow> Some (Inr ip_address, assigned_ips')))"

definition release_ip :: "string \<Rightarrow> string set \<Rightarrow> string set" where
  "release_ip ip_address assigned_ips =
     (if ip_address \<in> assigned_ips then assigned_ips - {ip_address} else assigned_ips)"

text \<open>
  \<open>add_route\<close> runs the operating system's \<open>route\<close> command. What the command does is the
  environment's answer, \<open>route_outcome\<close>: it completes, it exits with a non-zero status
  (\<open>subprocess.CalledProcessError\<close>), or starting it raises some other \<open>Exception\<close>. Both
  \<open>except\<close> clauses print and fall through, so the function returns normally each time.
\<close>

datatype route_outcome = RouteAdded | CalledProcessError | OtherException

definition add_route :: "string \<Rightarrow> string \<Rightarrow> route_outcome \<Rightarrow> error + unit" where
  "add_route destination gateway outcome =
     (case outcome of
        RouteAdded \<Rightarrow> Inr ()
      | CalledProcessError \<Rightarrow> Inr ()
      | OtherException \<Rightarrow> Inr ())"

section \<open>Registration, MobileNode, ForeignAgent, HomeAgent\<close>

text \<open>
  The dictionary \<open>request_data\<close> always has the three keys \<open>temp_identity\<close>, \<open>nonce_mn\<close> and
  \<open>coa\<close>. A node's \<open>temp_identity\<close> is \<open>None\<close> until its first registration, so the field is
  an option. Fields are prefixed by their class where two classes share a field name.
\<close>

record request_data =
  rd_temp_identity :: "string option"
  rd_nonce_mn :: string
  rd_coa :: string

text \<open>
  \<open>HomeAgent\<close> objects are shared: a node's \<open>home_agent\<close> and \<open>original_ha\<close>, a request's
  \<open>target\<close> and the entries of \<open>ha_registry\<close> are references to them. A reference is an
  address (\<open>nat\<close>), and the store \<open>nat \<Rightarrow> HomeAgent\<close> holds the object at each address.
\<close>

record Registration =
  request_type :: string
  target :: nat
  data :: request_data
  nonce :: "string option"

definition Registration_init :: "string \<Rightarrow> nat \<Rightarrow> request_data \<Rightarrow> Registration" where
  "Registration_init rtype tgt d = \<lparr>request_type = rtype, target = tgt, data = d, nonce = None\<rparr>"

definition add_nonce :: "Registration \<Rightarrow> string \<Rightarrow> Registration" where
  "add_nonce self n = self\<lparr>nonce := Some n\<rparr>"

record Binding =
  b_temp_identity :: "string option"
  b_shared_key_mn_fa :: string
  b_nonce_ha :: string
  b_coa :: string
  b_foreign_agent :: string

record HomeAgent =
  ha_identity :: string
  ha_ip_address :: string
  ha_shared_key_mn_ha :: string
  ha_nonce_ha :: string
  bindings :: "string \<Rightarrow> Binding option"
  peers :: "string set"

record ForeignAgent =
  fa_identity :: string
  fa_ip_address :: string
  nonce_fa :: string

record MobileNode =
  mn_identity :: string
  mn_shared_key_mn_ha :: "string option"
  mn_temp_identity :: "string option"
  mn_nonce_mn :: string
  mn_coa :: string
  home_agent :: nat
  original_ha :: nat

record response =
  status :: string
  binding :: Binding

type_synonym ha_store = "nat \<Rightarrow> HomeAgent"

text \<open>
  \<open>ip_address if ip_address else NetworkHelper.assign_ip(...)\<close>: \<open>None\<close> and the empty
  string are falsy.
\<close>

definition ip_or_assign ::
  "string option \<Rightarrow> string \<Rightarrow> (nat \<Rightarrow> nat) \<Rightarrow> string set \<Rightarrow> ((error + string) \<times> string set) option" where
  "ip_or_assign ip_address entity_type draws assigned_ips =
     (case ip_address of
        None \<Rightarrow> assign_ip entity_type draws assigned_ips
      | Some ip \<Rightarrow> if ip \<noteq> [] then Some (Inr ip, assigned_ips) else assign_ip entity_type draws assigned_ips)"

definition HomeAgent_init ::
  "string \<Rightarrow> string option \<Rightarrow> string \<Rightarrow> (nat \<Rightarrow> nat) \<Rightarrow> string set \<Rightarrow>
   ((error + HomeAgent) \<times> string set) option" where
  "HomeAgent_init identity ip_address token draws assigned_ips =
     (case ip_or_assign ip_address ''ha'' draws assigned_ips of
        None \<Rightarrow> None
      | Some (Inl e, assigned_ips') \<Rightarrow> Some (Inl e, assigned_ips')
      | Some (Inr ip, assigned_ips') \<Rightarrow>
          Some (Inr \<lparr>ha_identity = identity, ha_ip_address = ip,
                     ha_shared_key_mn_ha = ''shared_secret_mn_ha'', ha_nonce_ha = token,
                     bindings = Map.empty, peers = {}\<rparr>, assigned_ips'))"

definition ForeignAgent_init ::
  "string \<Rightarrow> string option \<Rightarrow> string \<Rightarrow> (nat \<Rightarrow> nat) \<Rightarrow> string set \<Rightarrow>
   ((error + ForeignAgent) \<times> string set) option" where
  "ForeignAgent_init identity ip_address token draws assigned_ips =
     (case ip_or_assign ip_address ''fa'' draws assigned_ips of
        None \<Rightarrow> None
      | Some (Inl e, assigned_ips') \<Rightarrow> Some (Inl e, assigned_ips')
      | Some (Inr ip, assigned_ips') \<Rightarrow>
          Some (Inr \<lparr>fa_identity = identity, fa_ip_address = ip, nonce_fa = token\<rparr>, assigned_ips'))"

text \<open>\<open>MobileNode.__init__\<close> draws the nonce first and the care-of address second.\<close>

definition MobileNode_init ::
  "string \<Rightarrow> nat \<Rightarrow> string \<Rightarrow> (nat \<Rightarrow> nat) \<Rightarrow> string set \<Rightarrow>
   ((error + MobileNode) \<times> string set) option" where
  "MobileNode_init identity ha token draws assigned_ips =
     (case assign_ip ''mn'' draws assigned_ips of
        None \<Rightarrow> None
      | Some (Inl e, assigned_ips') \<Rightarrow> Some (Inl e, assigned_ips')
      | Some (Inr ip, assigned_ips') \<Rightarrow>
          Some (Inr \<lparr>mn_identity = identity, mn_shared_key_mn_ha = None, mn_temp_identity = None,
                     mn_nonce_mn = token, mn_coa = ip, home_agent = ha, original_ha = ha\<rparr>,
                assigned_ips'))"

text \<open>
  \<open>HomeAgent.process_registration\<close>; \<open>self\<close> is the address of the authority in the store.
  The binding is written before \<open>add_route\<close> is called, and the response reads it back
  from \<open>self.bindings\<close>.
\<close>

definition process_registration ::
  "crypto \<Rightarrow> nat \<Rightarrow> ForeignAgent \<Rightarrow> MobileNode \<Rightarrow> Registration \<Rightarrow> route_outcome \<Rightarrow> ha_store \<Rightarrow>
   (error + response) \<times> ha_store" where
  "process_registration c self fa mn registration outcome has =
     (let temp_identity = rd_temp_identity (data registration) in
      if temp_identity =
         Some (generate_hash c (mn_identity mn @ rd_nonce_mn (data registration)))
      then
        let shared_key_mn_fa =
              generate_hmac c (ha_shared_key_mn_ha (has self))
                (rd_nonce_mn (data registration) @ ha_nonce_ha (has self) @ fa_identity fa);
            binding = \<lparr>b_temp_identity = temp_identity,
                       b_shared_key_mn_fa = shared_key_mn_fa,
                       b_nonce_ha = ha_nonce_ha (has self),
                       b_coa = rd_coa (data registration),
                       b_foreign_agent = fa_ip_address fa\<rparr>;
            has' = has(self := (has self)\<lparr>bindings := (bindings (has self))(mn_identity mn \<mapsto> binding)\<rparr>)
        in (case add_route (mn_coa mn) (ha_ip_address (has' self)) outcome of
              Inl e \<Rightarrow> (Inl e, has')
            | Inr u \<Rightarrow>
                (case bindings (has' self) (mn_identity mn) of
                   None \<Rightarrow> (Inl (KeyError (mn_identity mn)), has')
                 | Some b \<Rightarrow> (Inr \<lparr>status = ''success'', binding = b\<rparr>, has')))
      else (Inl (Exception ''Invalid registration data''), has))"

text \<open>
  \<open>ForeignAgent.handle_registration_request\<close> stamps the request object in place and hands
  it to the authority. The model returns the request object as it is after the call,
  next to what the authority returned.
\<close>

definition handle_registration_request ::
  "crypto \<Rightarrow> ForeignAgent \<Rightarrow> MobileNode \<Rightarrow> nat \<Rightarrow> Registration \<Rightarrow> route_outcome \<Rightarrow> ha_store \<Rightarrow>
   (error + response) \<times> Registration \<times> ha_store" where
  "handle_registration_request c self mn ha registration outcome has =
     (let registration' = add_nonce registration (nonce_fa self);
          (r, has') = process_registration c ha self mn registration' outcome has
      in (r, registration', has'))"

definition re_register_with_original_ha ::
  "crypto \<Rightarrow> MobileNode \<Rightarrow> ForeignAgent \<Rightarrow> route_outcome \<Rightarrow> ha_store \<Rightarrow>
   (error + response) \<times> Registration \<times> ha_store" where
  "re_register_with_original_ha c self fa outcome has =
     (let request_data = \<lparr>rd_temp_identity = mn_temp_identity self,
                            rd_nonce_mn = mn_nonce_mn self,
                            rd_coa = mn_coa self\<rparr>;
          registration = Registration_init ''re-registration'' (original_ha self) request_data
      in handle_registration_request c fa self (original_ha self) registration outcome has)"

text \<open>\<open>initiate_registration\<close> sets the node's \<open>temp_identity\<close>; the node is returned too.\<close>

definition initiate_registration ::
  "crypto \<Rightarrow> MobileNode \<Rightarrow> nat \<Rightarrow> ForeignAgent \<Rightarrow> route_outcome \<Rightarrow> ha_store \<Rightarrow>
   (error + response) \<times> Registration \<times> MobileNode \<times> ha_store" where
  "initiate_registration c self ha fa outcome has =
     (let self' = self\<lparr>mn_temp_identity :=
                         Some (generate_hash c (mn_identity self @ mn_nonce_mn self))\<rparr>;
          request_data = \<lparr>rd_temp_identity = mn_temp_identity self',
                            rd_nonce_mn = mn_nonce_mn self',
                            rd_coa = mn_coa self'\<rparr>;
          registration = Registration_init ''registration'' ha request_data;
          (r, registration', has') = handle_registration_request c fa self' ha registration outcome has
      in (r, registration', self', has'))"

text \<open>
  \<open>MobileNode.move_to_new_network\<close>. \<open>draws\<close> feeds \<open>assign_ip\<close>, \<open>token\<close> is the nonce
  \<open>generate_nonce()\<close> returns, \<open>outcome1\<close> and \<open>outcome2\<close> are the answers to the two
  \<open>add_route\<close> calls. The re-registration with the original authority is sent first, the
  registration with the new authority second; an exception of the first would end the
  method. \<open>mv_sent\<close> lists the request objects handed to the relay, in that order, as they
  are when the method returns.
\<close>

record move_result =
  mv_response :: "error + response"
  mv_node :: MobileNode
  mv_assigned_ips :: "string set"
  mv_has :: ha_store
  mv_sent :: "Registration list"

definition move_to_new_network ::
  "crypto \<Rightarrow> MobileNode \<Rightarrow> nat \<Rightarrow> ForeignAgent \<Rightarrow> (nat \<Rightarrow> nat) \<Rightarrow> string \<Rightarrow>
   route_outcome \<Rightarrow> route_outcome \<Rightarrow> string set \<Rightarrow> ha_store \<Rightarrow> move_result option" where
  "move_to_new_network c self ha fa draws token outcome1 outcome2 assigned_ips has =
     (case assign_ip ''mn'' draws assigned_ips of
        None \<Rightarrow> None
      | Some (Inl e, assigned_ips') \<Rightarrow>
          Some \<lparr>mv_response = Inl e, mv_node = self, mv_assigned_ips = assigned_ips',
                mv_has = has, mv_sent = []\<rparr>
      | Some (Inr ip, assigned_ips') \<Rightarrow>
          (let self1 = self\<lparr>mn_coa := ip\<rparr>;
               self2 = self1\<lparr>home_agent := ha\<rparr>;
               self3 = self2\<lparr>mn_nonce_mn := token\<rparr>;
               self4 = self3\<lparr>mn_temp_identity :=
                                Some (generate_hash c (mn_identity self3 @ mn_nonce_mn self3))\<rparr>;
               request_data = \<lparr>rd_temp_identity = mn_temp_identity self4,
                                 rd_nonce_mn = mn_nonce_mn self4,
                                 rd_coa = mn_coa self4\<rparr>;
               registration = Registration_init ''registration'' ha request_data;
               (r1, registration1, has1) = re_register_with_original_ha c self4 fa outcome1 has
           in (case r1 of
                 Inl e \<Rightarrow>
                   Some \<lparr>mv_response = Inl e, mv_node = self4, mv_assigned_ips = assigned_ips',
                         mv_has = has1, mv_sent = [registration1]\<rparr>
               | Inr resp1 \<Rightarrow>
                   (let (r2, registration2, has2) =
                          handle_registration_request c fa self4 ha registration outcome2 has1
                    in Some \<lparr>mv_response = r2, mv_node = self4, mv_assigned_ips = assigned_ips',
                             mv_has = has2, mv_sent = [registration1, registration2]\<rparr>))))"

section \<open>Mesh topology\<close>

text \<open>
  \<open>ha_registry\<close> is a dictionary from identities to \<open>HomeAgent\<close> objects, read in
  insertion order: the list of its items, each an identity and the address of the
  object. \<open>create_mesh_topology\<close> is two nested loops over the items.
\<close>

definition mesh_peers :: "string \<Rightarrow> (string \<times> nat) list \<Rightarrow> string set" where
  "mesh_peers ha_id ha_registry =
     fold (\<lambda>(peer_id, peer_ha) ps. if ha_id \<noteq> peer_id then insert peer_id ps else ps) ha_registry {}"

definition create_mesh_topology :: "(string \<times> nat) list \<Rightarrow> ha_store \<Rightarrow> ha_store" where
  "create_mesh_topology ha_registry has =
     fold (\<lambda>(ha_id, ha) has'. has'(ha := (has' ha)\<lparr>peers := mesh_peers ha_id ha_registry\<rparr>))
       ha_registry has"

section \<open>Moving a node\<close>

text \<open>
  The state \<open>move_mobile_node\<close> works on: the registries, the address pool and the store
  of authorities. \<open>mn_id\<close> is the line read from the terminal and \<open>selected_index\<close> the
  row chosen in the curses menu.
\<close>

record world =
  assigned_ips :: "string set"
  has :: ha_store
  ha_registry :: "(string \<times> nat) list"
  fa_registry :: "(string \<times> ForeignAgent) list"
  mn_registry :: "string \<Rightarrow> MobileNode option"

definition available_networks ::
  "world \<Rightarrow> nat \<Rightarrow> (string \<times> nat \<times> string \<times> ForeignAgent) list" where
  "available_networks w current_ha =
     map (\<lambda>((ha_id, ha), (fa_id, fa)). (ha_id, ha, fa_id, fa))
       (filter (\<lambda>((ha_id, ha), (fa_id, fa)). ha_id \<noteq> ha_identity (has w current_ha))
          (zip (ha_registry w) (fa_registry w)))"

definition move_mobile_node ::
  "crypto \<Rightarrow> string \<Rightarrow> nat \<Rightarrow> (nat \<Rightarrow> nat) \<Rightarrow> string \<Rightarrow> route_outcome \<Rightarrow> route_outcome \<Rightarrow>
   world \<Rightarrow> ((error + unit) \<times> world) option" where
  "move_mobile_node c mn_id selected_index draws token outcome1 outcome2 w =
     (case mn_registry w mn_id of
        None \<Rightarrow> Some (Inr (), w)
      | Some mn \<Rightarrow>
          (let current_ha = home_agent mn;
               avail = available_networks w current_ha
           in if avail = [] then Some (Inr (), w)
              else if \<not> selected_index < length avail then Some (Inl IndexError, w)
              else
                (case avail ! selected_index of (new_ha_id, new_ha, new_fa_id, new_fa) \<Rightarrow>
                   (case move_to_new_network c mn new_ha new_fa draws token outcome1 outcome2
                           (assigned_ips w) (has w) of
                      None \<Rightarrow> None
                    | Some mv \<Rightarrow>
                        (let w1 = w\<lparr>assigned_ips := mv_assigned_ips mv, has := mv_has mv,
                                     mn_registry := (mn_registry w)(mn_id \<mapsto> mv_node mv)\<rparr>
                         in (case mv_response mv of
                               Inl e \<Rightarrow> Some (Inl e, w1)
                             | Inr resp \<Rightarrow>
                                 if bindings (has w1 current_ha) mn_id \<noteq> None
                                    \<and> current_ha \<noteq> original_ha (mv_node mv)
                                 then Some (Inr (), w1\<lparr>has := (has w1)(current_ha :=
                                        (has w1 current_ha)\<lparr>bindings :=
                                           (bindings (has w1 current_ha))(mn_id := None)\<rparr>)\<rparr>)
                                 else Some (Inr (), w1)))))))"

section \<open>Sequences of pool operations\<close>

text \<open>
  A run of \<open>assign_ip\<close> and \<open>release_ip\<close> calls. Next to \<open>assigned_ips\<close> the run keeps a
  ledger of what the callers hold: the class and address of every address that
  \<open>assign_ip\<close> returned and that no \<open>release_ip\<close> has been called on since. An \<open>assign_ip\<close>
  call that raises \<open>ValueError\<close> hands out nothing; one that never returns ends the run.
\<close>

datatype pool_op = Assign string "nat \<Rightarrow> nat" | Release string

type_synonym ledger = "(string \<times> string) list"

fun pool_step :: "pool_op \<Rightarrow> string set \<times> ledger \<Rightarrow> (string set \<times> ledger) option" where
  "pool_step (Assign entity_type draws) (ips, held) =
     (case assign_ip entity_type draws ips of
        None \<Rightarrow> None
      | Some (Inl e, ips') \<Rightarrow> Some (ips', held)
      | Some (Inr ip, ips') \<Rightarrow> Some (ips', (entity_type, ip) # held))"
| "pool_step (Release ip) (ips, held) =
     Some (release_ip ip ips, filter (\<lambda>(entity_type, a). a \<noteq> ip) held)"

fun pool_run :: "pool_op list \<Rightarrow> string set \<times> ledger \<Rightarrow> (string set \<times> ledger) option" where
  "pool_run [] s = Some s"
| "pool_run (x # xs) s = (case pool_step x s of None \<Rightarrow> None | Some s' \<Rightarrow> pool_run xs s')"

section \<open>A scenario\<close>

text \<open>
  The objects of main.py's initial registries (\<open>HA123\<close> at 192.168.1.1, \<open>HA456\<close> at
  192.168.1.2, \<open>HA789\<close> at 192.168.1.3, \<open>FA123\<close> at 192.168.2.1, \<open>FA456\<close> at 192.168.2.2)
  with fixed tokens in place of the random nonces, and a node \<open>MN1\<close> whose home authority
  is \<open>HA123\<close>. The theorems below are instantiated on them. \<open>ex_crypto\<close> is a pair of
  injective stand-ins for the two library functions, so that the instances can be
  evaluated.
\<close>

definition ex_crypto :: crypto where
  "ex_crypto = \<lparr>generate_hash = (\<lambda>s. ''h:'' @ s), generate_hmac = (\<lambda>k d. ''m:'' @ k @ '':'' @ d)\<rparr>"

definition ex_HA123 :: HomeAgent where
  "ex_HA123 = \<lparr>ha_identity = ''HA123'', ha_ip_address = ''192.168.1.1'',
               ha_shared_key_mn_ha = ''shared_secret_mn_ha'', ha_nonce_ha = ''a1'',
               bindings = Map.empty, peers = {}\<rparr>"

definition ex_HA456 :: HomeAgent where
  "ex_HA456 = \<lparr>ha_identity = ''HA456'', ha_ip_address = ''192.168.1.2'',
               ha_shared_key_mn_ha = ''shared_secret_mn_ha'', ha_nonce_ha = ''a2'',
               bindings = Map.empty, peers = {}\<rparr>"

definition ex_HA789 :: HomeAgent where
  "ex_HA789 = \<lparr>ha_identity = ''HA789'', ha_ip_address = ''192.168.1.3'',
               ha_shared_key_mn_ha = ''shared_secret_mn_ha'', ha_nonce_ha = ''a3'',
               bindings = Map.empty, peers = {}\<rparr>"

definition ex_store :: ha_store where
  "ex_store = (\<lambda>a. if a = 0 then ex_HA123 else if a = 1 then ex_HA456 else ex_HA789)"

definition ex_ha_registry :: "(string \<times> nat) list" where
  "ex_ha_registry = [(''HA123'', 0), (''HA456'', 1), (''HA789'', 2)]"

definition ex_FA123 :: ForeignAgent where
  "ex_FA123 = \<lparr>fa_identity = ''FA123'', fa_ip_address = ''192.168.2.1'', nonce_fa = ''f1''\<rparr>"

definition ex_FA456 :: ForeignAgent where
  "ex_FA456 = \<lparr>fa_identity = ''FA456'', fa_ip_address = ''192.168.2.2'', nonce_fa = ''f2''\<rparr>"

definition ex_MN1 :: MobileNode where
  "ex_MN1 = \<lparr>mn_identity = ''MN1'', mn_shared_key_mn_ha = None, mn_temp_identity = None,
             mn_nonce_mn = ''n1'', mn_coa = ''10.1.0.7'', home_agent = 0, original_ha = 0\<rparr>"

definition ex_MN2 :: MobileNode where
  "ex_MN2 = \<lparr>mn_identity = ''MN2'', mn_shared_key_mn_ha = None, mn_temp_identity = None,
             mn_nonce_mn = ''n9'', mn_coa = ''10.1.0.9'', home_agent = 0, original_ha = 0\<rparr>"

definition ex_request :: "string \<Rightarrow> Registration" where
  "ex_request t = \<lparr>request_type = ''registration'', target = 0,
                   data = \<lparr>rd_temp_identity = Some t, rd_nonce_mn = ''n1'', rd_coa = ''10.1.0.7''\<rparr>,
                   nonce = Some ''f1''\<rparr>"

definition ex_MN1_registered :: MobileNode where
  "ex_MN1_registered =
     fst (snd (snd (initiate_registration ex_crypto ex_MN1 0 ex_FA123 RouteAdded ex_store)))"

definition ex_store_registered :: ha_store where
  "ex_store_registered =
     snd (snd (snd (initiate_registration ex_crypto ex_MN1 0 ex_FA123 RouteAdded ex_store)))"

definition ex_FA789 :: ForeignAgent where
  "ex_FA789 = \<lparr>fa_identity = ''FA789'', fa_ip_address = ''192.168.2.3'', nonce_fa = ''f3''\<rparr>"

text \<open>
  A state in which \<open>MN1\<close>, whose original authority is \<open>HA123\<close>, is attached to \<open>HA456\<close>
  and has a binding at both.
\<close>

definition ex_world :: world where
  "ex_world =
     \<lparr>assigned_ips = {''10.1.0.7'', ''10.1.0.8''},
      has = ex_store_registered(1 := ex_HA456\<lparr>bindings :=
              [''MN1'' \<mapsto> \<lparr>b_temp_identity = Some ''h:MN1n2'',
                             b_shared_key_mn_fa = ''m:shared_secret_mn_ha:n2a2FA456'',
                             b_nonce_ha = ''a2'', b_coa = ''10.1.0.8'',
                             b_foreign_agent = ''192.168.2.2''\<rparr>]\<rparr>),
      ha_registry = ex_ha_registry,
      fa_registry = [(''FA123'', ex_FA123), (''FA456'', ex_FA456), (''FA789'', ex_FA789)],
      mn_registry = [''MN1'' \<mapsto> ex_MN1\<lparr>mn_temp_identity := Some ''h:MN1n2'', mn_nonce_mn := ''n2'',
                                       mn_coa := ''10.1.0.8'', home_agent := 1\<rparr>]\<rparr>"

section \<open>Properties of the address pool\<close>

lemma assign_ip_loop_free_now:
  "ip_of nid (draws i) \<notin> S \<Longrightarrow>
   assign_ip_loop nid draws i S = Some (ip_of nid (draws i), insert (ip_of nid (draws i)) S)"
  by (subst assign_ip_loop.simps) (simp add: Let_def)

lemma assign_ip_loop_held_now:
  "ip_of nid (draws i) \<in> S \<Longrightarrow> assign_ip_loop nid draws i S = assign_ip_loop nid draws (Suc i) S"
  by (subst assign_ip_loop.simps) (simp add: Let_def)

lemma assign_ip_loop_Some_free:
  assumes "assign_ip_loop nid draws i S = Some r"
  shows "\<exists>j\<ge>i. ip_of nid (draws j) \<notin> S \<and> r = (ip_of nid (draws j), insert (ip_of nid (draws j)) S)"
proof (rule assign_ip_loop.raw_induct[where P = "\<lambda>nid draws i S r.
    \<exists>j\<ge>i. ip_of nid (draws j) \<notin> S \<and> r = (ip_of nid (draws j), insert (ip_of nid (draws j)) S)",
    OF _ assms])
  fix f nid draws i S r
  assume IH: "\<And>nid draws i S r. f nid draws i S = Some r \<Longrightarrow>
     \<exists>j\<ge>i. ip_of nid (draws j) \<notin> S \<and> r = (ip_of nid (draws j), insert (ip_of nid (draws j)) S)"
    and body: "(let ip_address = ip_of nid (draws i)
      in if ip_address \<notin> S then Some (ip_address, insert ip_address S)
         else f nid draws (Suc i) S) = Some r"
  show "\<exists>j\<ge>i. ip_of nid (draws j) \<notin> S \<and> r = (ip_of nid (draws j), insert (ip_of nid (draws j)) S)"
  proof (cases "ip_of nid (draws i) \<in> S")
    case True
    with body have "f nid draws (Suc i) S = Some r" by (simp add: Let_def)
    from IH[OF this] obtain j where j: "Suc i \<le> j" "ip_of nid (draws j) \<notin> S"
      "r = (ip_of nid (draws j), insert (ip_of nid (draws j)) S)" by blast
    then show ?thesis by (intro exI[of _ j]) simp
  next
    case False
    with body show ?thesis by (intro exI[of _ i]) (auto simp: Let_def)
  qed
qed

lemma assign_ip_loop_all_held:
  "(\<forall>j\<ge>i. ip_of nid (draws j) \<in> S) \<Longrightarrow> assign_ip_loop nid draws i S = None"
  using assign_ip_loop_Some_free[of nid draws i S] by (cases "assign_ip_loop nid draws i S") auto

lemma assign_ip_loop_returns:
  "ip_of nid (draws (i + n)) \<notin> S \<Longrightarrow> \<exists>a. assign_ip_loop nid draws i S = Some (a, insert a S) \<and> a \<notin> S"
proof (induction n arbitrary: i)
  case 0
  then show ?case by (simp add: assign_ip_loop_free_now)
next
  case (Suc n)
  show ?case
  proof (cases "ip_of nid (draws i) \<in> S")
    case True
    have "\<exists>a. assign_ip_loop nid draws (Suc i) S = Some (a, insert a S) \<and> a \<notin> S"
      using Suc.prems by (intro Suc.IH) simp
    then show ?thesis using True by (simp add: assign_ip_loop_held_now)
  next
    case False
    then show ?thesis by (simp add: assign_ip_loop_free_now)
  qed
qed

lemma assign_ip_Inr:
  assumes "assign_ip t draws S = Some (Inr a, S')"
  shows "a \<notin> S \<and> S' = insert a S \<and> (\<exists>nid j. network_id_map t = Some nid \<and> a = ip_of nid (draws j))"
proof -
  from assms obtain nid where nid: "network_id_map t = Some nid"
    by (auto simp: assign_ip_def split: option.splits)
  with assms have "assign_ip_loop nid draws 0 S = Some (a, S')"
    by (auto simp: assign_ip_def split: option.splits)
  from assign_ip_loop_Some_free[OF this] nid show ?thesis by auto
qed

lemma assign_ip_Inl:
  "assign_ip t draws S = Some (Inl e, S') \<Longrightarrow> S' = S \<and> network_id_map t = None"
  by (auto simp: assign_ip_def split: option.splits)

lemma map_snd_filter_ledger:
  "map snd (filter (\<lambda>(t, a). a \<noteq> ip) held) = filter (\<lambda>a. a \<noteq> ip) (map snd held)"
  by (induction held) auto

lemma pool_step_inv:
  assumes "pool_step x (S, held) = Some (S', held')"
    and "distinct (map snd held)" and "set (map snd held) \<subseteq> S"
  shows "distinct (map snd held') \<and> set (map snd held') \<subseteq> S'"
proof (cases x)
  case (Assign t draws)
  show ?thesis
  proof (cases "assign_ip t draws S")
    case None
    with Assign assms(1) show ?thesis by simp
  next
    case (Some r)
    obtain res S1 where r: "r = (res, S1)" by (cases r)
    show ?thesis
    proof (cases res)
      case (Inl e)
      with Assign Some r assms assign_ip_Inl[of t draws S e S1] show ?thesis by auto
    next
      case (Inr a)
      from Assign Some r Inr assms(1) have eq: "S' = S1" "held' = (t, a) # held" by auto
      from assign_ip_Inr[of t draws S a S1] Some r Inr have "a \<notin> S" "S1 = insert a S" by auto
      with eq assms(2,3) show ?thesis by auto
    qed
  qed
next
  case (Release ip)
  with assms(1) have eq: "S' = release_ip ip S" "map snd held' = filter (\<lambda>a. a \<noteq> ip) (map snd held)"
    by (auto simp: map_snd_filter_ledger)
  have "distinct (map snd held')" using eq(2) assms(2) by simp
  moreover have "set (map snd held') \<subseteq> S'"
    unfolding eq using assms(3) by (auto simp: release_ip_def)
  ultimately show ?thesis by blast
qed

lemma pool_run_inv:
  "pool_run xs (S, held) = Some (S', held') \<Longrightarrow> distinct (map snd held) \<Longrightarrow>
   set (map snd held) \<subseteq> S \<Longrightarrow> distinct (map snd held') \<and> set (map snd held') \<subseteq> S'"
proof (induction xs arbitrary: S held)
  case Nil
  then show ?case by simp
next
  case (Cons x xs)
  from Cons.prems(1) obtain S1 held1 where step: "pool_step x (S, held) = Some (S1, held1)"
    and rest: "pool_run xs (S1, held1) = Some (S', held')"
    by (auto split: option.splits)
  from pool_step_inv[OF step Cons.prems(2,3)] Cons.IH[OF rest] show ?case by blast
qed

lemma pool_step_keeps:
  assumes "pool_step x (S, held) = Some (S', held')" and "x \<noteq> Release a"
  shows "(a \<in> S \<longrightarrow> a \<in> S') \<and> (a \<in> set (map snd held) \<longrightarrow> a \<in> set (map snd held'))"
proof (cases x)
  case (Assign t draws)
  show ?thesis
  proof (cases "assign_ip t draws S")
    case None
    with Assign assms(1) show ?thesis by simp
  next
    case (Some r)
    obtain res S1 where r: "r = (res, S1)" by (cases r)
    show ?thesis
    proof (cases res)
      case (Inl e)
      with Assign Some r assms assign_ip_Inl[of t draws S e S1] show ?thesis by auto
    next
      case (Inr b)
      from Assign Some r Inr assms(1) have eq: "S' = S1" "held' = (t, b) # held" by auto
      from assign_ip_Inr[of t draws S b S1] Some r Inr have "S1 = insert b S" by auto
      with eq show ?thesis by auto
    qed
  qed
next
  case (Release ip)
  with assms have ne: "ip \<noteq> a" and eq: "S' = release_ip ip S"
    "map snd held' = filter (\<lambda>a. a \<noteq> ip) (map snd held)"
    by (auto simp: map_snd_filter_ledger)
  have "a \<in> S \<longrightarrow> a \<in> S'" using ne eq(1) by (auto simp: release_ip_def)
  moreover have "a \<in> set (map snd held) \<longrightarrow> a \<in> set (map snd held')"
    unfolding eq(2) using ne by auto
  ultimately show ?thesis by blast
qed

lemma pool_run_keeps:
  "pool_run xs (S, held) = Some (S', held') \<Longrightarrow> Release a \<notin> set xs \<Longrightarrow>
   (a \<in> S \<longrightarrow> a \<in> S') \<and> (a \<in> set (map snd held) \<longrightarrow> a \<in> set (map snd held'))"
proof (induction xs arbitrary: S held)
  case Nil
  then show ?case by simp
next
  case (Cons x xs)
  from Cons.prems(1) obtain S1 held1 where step: "pool_step x (S, held) = Some (S1, held1)"
    and rest: "pool_run xs (S1, held1) = Some (S', held')"
    by (auto split: option.splits)
  from Cons.prems(2) have "x \<noteq> Release a" "Release a \<notin> set xs" by auto
  from pool_step_keeps[OF step this(1)] Cons.IH[OF rest this(2)] show ?case by blast
qed

lemmas pool_eval = assign_ip_def network_id_map_def assign_ip_loop.simps ip_of_def str_nat.simps
  digit_char_def release_ip_def Let_def

text \<open>
  C4. Along every run of assign and release calls that starts from a ledger without
  repeated addresses, all of them in \<open>assigned_ips\<close>, the ledger never holds an address
  twice, whatever the classes of its entries (there is one pool for the three classes);
  the next \<open>assign_ip\<close> returns an address that is not held; an address that was in the
  pool at the start is returned again only if the run released it; and what is held and
  not released stays held.
\<close>

theorem pool_held_addresses_distinct:
  assumes "pool_run xs (S, held) = Some (S', held')"
    and "distinct (map snd held)" and "set (map snd held) \<subseteq> S"
  shows "distinct (map snd held') \<and> set (map snd held') \<subseteq> S'
       \<and> (\<forall>t draws a S''. assign_ip t draws S' = Some (Inr a, S'') \<longrightarrow>
             a \<notin> S' \<and> a \<notin> set (map snd held') \<and> S'' = insert a S')
       \<and> (\<forall>t draws a S''. assign_ip t draws S' = Some (Inr a, S'') \<and> a \<in> S \<longrightarrow>
             Release a \<in> set xs)
       \<and> (\<forall>a. a \<in> set (map snd held) \<and> Release a \<notin> set xs \<longrightarrow> a \<in> set (map snd held'))"
proof -
  have inv: "distinct (map snd held') \<and> set (map snd held') \<subseteq> S'"
    using pool_run_inv[OF assms] .
  have fresh: "a \<notin> S' \<and> a \<notin> set (map snd held') \<and> S'' = insert a S'"
    if "assign_ip t draws S' = Some (Inr a, S'')" for t draws a S''
    using assign_ip_Inr[OF that] inv by blast
  have rel: "Release a \<in> set xs"
    if "assign_ip t draws S' = Some (Inr a, S'')" "a \<in> S" for t draws a S''
    using fresh[OF that(1)] pool_run_keeps[OF assms(1), of a] that(2) by blast
  have keep: "a \<in> set (map snd held')" if "a \<in> set (map snd held)" "Release a \<notin> set xs" for a
    using pool_run_keeps[OF assms(1) that(2)] that(1) by blast
  show ?thesis using inv fresh rel keep by blast
qed

theorem pool_held_addresses_distinct_witness:
  "pool_run [Assign ''mn'' (\<lambda>i. 5), Assign ''ha'' (\<lambda>i. 5), Release ''10.1.0.5'',
             Assign ''mn'' (\<lambda>i. 5)] ({''192.168.2.1''}, [(''fa'', ''192.168.2.1'')])
     = Some ({''10.1.0.5'', ''192.168.1.5'', ''192.168.2.1''},
             [(''mn'', ''10.1.0.5''), (''ha'', ''192.168.1.5''), (''fa'', ''192.168.2.1'')])
   \<and> distinct (map snd [(''mn'', ''10.1.0.5''), (''ha'', ''192.168.1.5''), (''fa'', ''192.168.2.1'')])
   \<and> ''192.168.2.1'' \<in> set (map snd [(''mn'', ''10.1.0.5''), (''ha'', ''192.168.1.5''), (''fa'', ''192.168.2.1'')])"
proof -
  have run: "pool_run [Assign ''mn'' (\<lambda>i. 5), Assign ''ha'' (\<lambda>i. 5), Release ''10.1.0.5'',
             Assign ''mn'' (\<lambda>i. 5)] ({''192.168.2.1''}, [(''fa'', ''192.168.2.1'')])
     = Some ({''10.1.0.5'', ''192.168.1.5'', ''192.168.2.1''},
             [(''mn'', ''10.1.0.5''), (''ha'', ''192.168.1.5''), (''fa'', ''192.168.2.1'')])"
    by (simp add: pool_eval insert_commute)
  have d: "distinct (map snd [(''fa'', ''192.168.2.1'')])" by simp
  have s: "set (map snd [(''fa'', ''192.168.2.1'')]) \<subseteq> {''192.168.2.1''}" by simp
  show ?thesis using pool_held_addresses_distinct[OF run d s] run by simp
qed

lemma digit_char_code: "d < 10 \<Longrightarrow> of_char (digit_char d) = 48 + d"
proof -
  assume "d < 10"
  then have "d = 0 \<or> d = 1 \<or> d = 2 \<or> d = 3 \<or> d = 4 \<or> d = 5 \<or> d = 6 \<or> d = 7 \<or> d = 8 \<or> d = 9"
    by arith
  then show ?thesis by (elim disjE) (simp_all add: digit_char_def)
qed

lemma digit_char_inj:
  assumes "d < 10" and "e < 10" and "digit_char d = digit_char e"
  shows "d = e"
proof -
  have "48 + d = (of_char (digit_char d) :: nat)" using digit_char_code[OF assms(1)] by simp
  also have "\<dots> = of_char (digit_char e)" by (simp only: assms(3))
  also have "\<dots> = 48 + e" using digit_char_code[OF assms(2)] by simp
  finally show ?thesis by arith
qed

lemma str_nat_nonempty: "str_nat n \<noteq> []"
  by (subst str_nat.simps) simp

lemma str_nat_inj: "str_nat m = str_nat n \<Longrightarrow> m = n"
proof (induction m arbitrary: n rule: str_nat.induct)
  case (1 m)
  show ?case
  proof (cases "m < 10")
    case m: True
    show ?thesis
    proof (cases "n < 10")
      case True
      with m "1.prems" show ?thesis
        by (simp add: str_nat.simps[of m] str_nat.simps[of n] digit_char_inj)
    next
      case False
      with m "1.prems" str_nat_nonempty[of "n div 10"] show ?thesis
        by (simp add: str_nat.simps[of m] str_nat.simps[of n] Cons_eq_append_conv)
    qed
  next
    case m: False
    show ?thesis
    proof (cases "n < 10")
      case True
      with m "1.prems" str_nat_nonempty[of "m div 10"] show ?thesis
        by (simp add: str_nat.simps[of m] str_nat.simps[of n] append_eq_Cons_conv)
    next
      case False
      with m "1.prems" have a: "str_nat (m div 10) = str_nat (n div 10)"
        and b: "digit_char (m mod 10) = digit_char (n mod 10)"
        by (simp_all add: str_nat.simps[of m] str_nat.simps[of n])
      from "1.IH"[OF m a] have "m div 10 = n div 10" .
      moreover from b have "m mod 10 = n mod 10" by (intro digit_char_inj) simp_all
      ultimately show ?thesis by (metis div_mult_mod_eq)
    qed
  qed
qed

lemma ip_of_inj: "ip_of nid d = ip_of nid e \<Longrightarrow> d = e"
  by (simp add: ip_of_def str_nat_inj)

lemma pool_run_append:
  "pool_run (xs @ ys) s = (case pool_run xs s of None \<Rightarrow> None | Some s' \<Rightarrow> pool_run ys s')"
  by (induction xs arbitrary: s) (auto split: option.splits)

lemma assign_ip_const_draw:
  "network_id_map t = Some nid \<Longrightarrow> ip_of nid d \<notin> S \<Longrightarrow>
   assign_ip t (\<lambda>i. d) S = Some (Inr (ip_of nid d), insert (ip_of nid d) S)"
  by (simp add: assign_ip_def assign_ip_loop_free_now)

lemma pool_fill:
  "network_id_map t = Some nid \<Longrightarrow>
   pool_run (map (\<lambda>d. Assign t (\<lambda>i. d)) [0..<n]) ({}, []) =
   Some (ip_of nid ` {0..<n}, map (\<lambda>d. (t, ip_of nid d)) (rev [0..<n]))"
proof (induction n)
  case 0
  then show ?case by simp
next
  case (Suc n)
  have fresh: "ip_of nid n \<notin> ip_of nid ` {0..<n}"
    using ip_of_inj[of nid n] by auto
  have "insert (ip_of nid n) (ip_of nid ` {0..<n}) = ip_of nid ` {0..<Suc n}"
    by (auto simp: less_Suc_eq)
  with Suc fresh show ?case
    by (simp add: pool_run_append assign_ip_const_draw)
qed

lemma assign_ip_all_held:
  assumes "network_id_map t = Some nid" and "\<forall>i. ip_of nid (draws i) \<in> S"
  shows "assign_ip t draws S = None"
  using assms by (simp add: assign_ip_def assign_ip_loop_all_held)

lemma assign_ip_some_free:
  assumes "network_id_map t = Some nid" and "ip_of nid (draws n) \<notin> S"
  shows "\<exists>a. assign_ip t draws S = Some (Inr a, insert a S) \<and> a \<notin> S"
  using assms assign_ip_loop_returns[of nid draws 0 n S] by (auto simp: assign_ip_def)

text \<open>
  C5, as the code has it. \<open>assign_ip\<close> has no exit for a full address space: when all 255
  addresses of the class are held, the call never returns, whatever \<open>randbelow\<close> draws; it
  raises nothing. In general the call fails to return exactly when every draw is a held
  address, and a call that returns, returns a free address and adds it to the pool.
\<close>

theorem assign_ip_exhausted_never_returns:
  assumes "network_id_map t = Some nid"
  shows "((\<forall>d<255. ip_of nid d \<in> S) \<and> (\<forall>i. draws i < 255) \<longrightarrow> assign_ip t draws S = None)
       \<and> (assign_ip t draws S = None \<longleftrightarrow> (\<forall>i. ip_of nid (draws i) \<in> S))
       \<and> (\<forall>r. assign_ip t draws S = Some r \<longrightarrow>
            (\<exists>a. r = (Inr a, insert a S) \<and> a \<notin> S))"
proof -
  have 1: "assign_ip t draws S = None" if "\<forall>d<255. ip_of nid d \<in> S" "\<forall>i. draws i < 255"
    using that by (intro assign_ip_all_held[OF assms]) blast
  have 2: "assign_ip t draws S = None \<longleftrightarrow> (\<forall>i. ip_of nid (draws i) \<in> S)"
  proof
    assume n: "assign_ip t draws S = None"
    show "\<forall>i. ip_of nid (draws i) \<in> S"
    proof (rule ccontr)
      assume "\<not> (\<forall>i. ip_of nid (draws i) \<in> S)"
      then obtain i where "ip_of nid (draws i) \<notin> S" by blast
      from assign_ip_some_free[where draws = draws and n = i, OF assms this] n show False by simp
    qed
  next
    assume "\<forall>i. ip_of nid (draws i) \<in> S"
    then show "assign_ip t draws S = None" by (rule assign_ip_all_held[OF assms])
  qed
  have 3: "\<exists>a. r = (Inr a, insert a S) \<and> a \<notin> S" if r: "assign_ip t draws S = Some r" for r
  proof -
    from r 2 obtain i where "ip_of nid (draws i) \<notin> S" by auto
    from assign_ip_some_free[where draws = draws and n = i, OF assms this] r show ?thesis by auto
  qed
  show ?thesis using 1 2 3 by blast
qed

theorem assign_ip_exhausted_never_returns_witness:
  "network_id_map ''mn'' = Some ''10.1.0''
   \<and> assign_ip ''mn'' (\<lambda>i. i mod 255) (ip_of ''10.1.0'' ` {0..<255}) = None"
proof -
  have m: "network_id_map ''mn'' = Some ''10.1.0''" by (simp add: network_id_map_def)
  have full: "\<forall>d<255. ip_of ''10.1.0'' d \<in> ip_of ''10.1.0'' ` {0..<255}" by simp
  have dr: "\<forall>i. i mod 255 < (255::nat)" by simp
  have none: "assign_ip ''mn'' (\<lambda>i. i mod 255) (ip_of ''10.1.0'' ` {0..<255}) = None"
    using assign_ip_exhausted_never_returns[OF m, of "ip_of ''10.1.0'' ` {0..<255}" "\<lambda>i. i mod 255"]
      full dr by blast
  show ?thesis using m none by blast
qed

text \<open>
  The pool after 255 successful \<open>assign_ip("mn")\<close> calls and no release: the next call
  does not return, so it does not fail with an error either.
\<close>

theorem assign_ip_exhausted_counterexample:
  "pool_run (map (\<lambda>d. Assign ''mn'' (\<lambda>i. d)) [0..<255]) ({}, [])
     = Some (ip_of ''10.1.0'' ` {0..<255}, map (\<lambda>d. (''mn'', ip_of ''10.1.0'' d)) (rev [0..<255]))
   \<and> assign_ip ''mn'' (\<lambda>i. i mod 255) (ip_of ''10.1.0'' ` {0..<255}) = None
   \<and> \<not> (\<exists>e S'. assign_ip ''mn'' (\<lambda>i. i mod 255) (ip_of ''10.1.0'' ` {0..<255}) = Some (Inl e, S'))"
proof -
  have m: "network_id_map ''mn'' = Some ''10.1.0''" by (simp add: network_id_map_def)
  have none: "assign_ip ''mn'' (\<lambda>i. i mod 255) (ip_of ''10.1.0'' ` {0..<255}) = None"
    by (rule assign_ip_all_held[OF m]) simp
  show ?thesis using pool_fill[OF m, of 255] none by simp
qed

section \<open>Properties of registration\<close>

lemma add_route_returns: "add_route destination gateway outcome = Inr ()"
  by (cases outcome) (simp_all add: add_route_def)

lemma process_registration_match:
  assumes "rd_temp_identity (data reg) = Some (generate_hash c (mn_identity mn @ rd_nonce_mn (data reg)))"
  shows "process_registration c self fa mn reg outcome hs =
     (Inr \<lparr>status = ''success'',
           binding = \<lparr>b_temp_identity = rd_temp_identity (data reg),
                      b_shared_key_mn_fa = generate_hmac c (ha_shared_key_mn_ha (hs self))
                         (rd_nonce_mn (data reg) @ ha_nonce_ha (hs self) @ fa_identity fa),
                      b_nonce_ha = ha_nonce_ha (hs self),
                      b_coa = rd_coa (data reg),
                      b_foreign_agent = fa_ip_address fa\<rparr>\<rparr>,
      hs(self := (hs self)\<lparr>bindings := (bindings (hs self))(mn_identity mn \<mapsto>
                    \<lparr>b_temp_identity = rd_temp_identity (data reg),
                      b_shared_key_mn_fa = generate_hmac c (ha_shared_key_mn_ha (hs self))
                         (rd_nonce_mn (data reg) @ ha_nonce_ha (hs self) @ fa_identity fa),
                      b_nonce_ha = ha_nonce_ha (hs self),
                      b_coa = rd_coa (data reg),
                      b_foreign_agent = fa_ip_address fa\<rparr>)\<rparr>))"
  using assms by (simp add: process_registration_def Let_def add_route_returns)

lemma process_registration_mismatch:
  assumes "rd_temp_identity (data reg) \<noteq> Some (generate_hash c (mn_identity mn @ rd_nonce_mn (data reg)))"
  shows "process_registration c self fa mn reg outcome hs =
     (Inl (Exception ''Invalid registration data''), hs)"
  using assms by (simp add: process_registration_def Let_def)

text \<open>
  C1. \<open>process_registration\<close> returns a response if and only if the request's
  \<open>temp_identity\<close> is the hash of the node's identity followed by the \<open>nonce_mn\<close> of the
  same request; otherwise it raises \<open>Exception("Invalid registration data")\<close> and the
  store of authorities, with every \<open>bindings\<close> dictionary in it, is as before the call.
\<close>

theorem process_registration_sound:
  "((\<exists>resp hs'. process_registration c self fa mn reg outcome hs = (Inr resp, hs')) \<longleftrightarrow>
      rd_temp_identity (data reg) = Some (generate_hash c (mn_identity mn @ rd_nonce_mn (data reg))))
   \<and> (rd_temp_identity (data reg) \<noteq> Some (generate_hash c (mn_identity mn @ rd_nonce_mn (data reg))) \<longrightarrow>
        process_registration c self fa mn reg outcome hs =
          (Inl (Exception ''Invalid registration data''), hs))"
proof (cases "rd_temp_identity (data reg) = Some (generate_hash c (mn_identity mn @ rd_nonce_mn (data reg)))")
  case True
  then show ?thesis by (simp add: process_registration_match)
next
  case False
  then show ?thesis by (simp add: process_registration_mismatch)
qed

lemmas ex_defs = ex_crypto_def ex_HA123_def ex_HA456_def ex_HA789_def ex_store_def
  ex_ha_registry_def ex_FA123_def ex_FA456_def ex_FA789_def ex_MN1_def ex_MN2_def ex_request_def

theorem process_registration_sound_witness:
  "(\<exists>resp hs'. process_registration ex_crypto 0 ex_FA123 ex_MN1 (ex_request ''h:MN1n1'') RouteAdded ex_store
       = (Inr resp, hs'))
   \<and> process_registration ex_crypto 0 ex_FA123 ex_MN1 (ex_request ''h:MN1wrong-nonce'') RouteAdded ex_store
       = (Inl (Exception ''Invalid registration data''), ex_store)"
proof -
  have ok: "rd_temp_identity (data (ex_request ''h:MN1n1'')) =
     Some (generate_hash ex_crypto (mn_identity ex_MN1 @ rd_nonce_mn (data (ex_request ''h:MN1n1''))))"
    by (simp add: ex_defs)
  have bad: "rd_temp_identity (data (ex_request ''h:MN1wrong-nonce'')) \<noteq>
     Some (generate_hash ex_crypto (mn_identity ex_MN1 @ rd_nonce_mn (data (ex_request ''h:MN1wrong-nonce''))))"
    by (simp add: ex_defs)
  show ?thesis
    using process_registration_sound[of ex_crypto 0 ex_FA123 ex_MN1 "ex_request ''h:MN1n1''" RouteAdded ex_store]
      process_registration_sound[of ex_crypto 0 ex_FA123 ex_MN1 "ex_request ''h:MN1wrong-nonce''" RouteAdded ex_store]
      ok bad by blast
qed

text \<open>
  C2. When the check passes, the response is a success carrying the binding that is now
  stored under the node's identity, and that binding is exactly the request's
  \<open>temp_identity\<close>, the key \<open>generate_hmac(shared_key_mn_ha, nonce_mn + nonce_ha +
  fa.identity)\<close> of the request's nonce, the authority's own nonce and the relay's
  identity, the authority's nonce, the request's care-of address and the relay's address.
\<close>

theorem process_registration_binding:
  assumes "rd_temp_identity (data reg) = Some (generate_hash c (mn_identity mn @ rd_nonce_mn (data reg)))"
    and "process_registration c self fa mn reg outcome hs = (r, hs')"
  shows "\<exists>b. r = Inr \<lparr>status = ''success'', binding = b\<rparr>
           \<and> bindings (hs' self) (mn_identity mn) = Some b
           \<and> b_shared_key_mn_fa b = generate_hmac c (ha_shared_key_mn_ha (hs self))
                (rd_nonce_mn (data reg) @ ha_nonce_ha (hs self) @ fa_identity fa)
           \<and> b = \<lparr>b_temp_identity = rd_temp_identity (data reg),
                   b_shared_key_mn_fa = generate_hmac c (ha_shared_key_mn_ha (hs self))
                      (rd_nonce_mn (data reg) @ ha_nonce_ha (hs self) @ fa_identity fa),
                   b_nonce_ha = ha_nonce_ha (hs self),
                   b_coa = rd_coa (data reg),
                   b_foreign_agent = fa_ip_address fa\<rparr>"
  using assms(2) unfolding process_registration_match[OF assms(1)] by auto

theorem process_registration_binding_witness:
  "fst (process_registration ex_crypto 0 ex_FA123 ex_MN1 (ex_request ''h:MN1n1'') RouteAdded ex_store)
     = Inr \<lparr>status = ''success'',
            binding = \<lparr>b_temp_identity = Some ''h:MN1n1'',
                       b_shared_key_mn_fa = ''m:shared_secret_mn_ha:n1a1FA123'',
                       b_nonce_ha = ''a1'', b_coa = ''10.1.0.7'',
                       b_foreign_agent = ''192.168.2.1''\<rparr>\<rparr>
   \<and> bindings (snd (process_registration ex_crypto 0 ex_FA123 ex_MN1 (ex_request ''h:MN1n1'')
                      RouteAdded ex_store) 0) ''MN1''
     = Some \<lparr>b_temp_identity = Some ''h:MN1n1'',
              b_shared_key_mn_fa = ''m:shared_secret_mn_ha:n1a1FA123'',
              b_nonce_ha = ''a1'', b_coa = ''10.1.0.7'',
              b_foreign_agent = ''192.168.2.1''\<rparr>"
proof -
  have ok: "rd_temp_identity (data (ex_request ''h:MN1n1'')) =
     Some (generate_hash ex_crypto (mn_identity ex_MN1 @ rd_nonce_mn (data (ex_request ''h:MN1n1''))))"
    by (simp add: ex_defs)
  obtain r hs' where p: "process_registration ex_crypto 0 ex_FA123 ex_MN1 (ex_request ''h:MN1n1'')
     RouteAdded ex_store = (r, hs')" by (cases "process_registration ex_crypto 0 ex_FA123 ex_MN1
     (ex_request ''h:MN1n1'') RouteAdded ex_store")
  from process_registration_binding[OF ok p] show ?thesis
    unfolding p by (auto simp: ex_defs)
qed

lemma process_registration_frame:
  "ha_identity (snd (process_registration c self fa mn reg outcome hs) a) = ha_identity (hs a)
   \<and> ha_ip_address (snd (process_registration c self fa mn reg outcome hs) a) = ha_ip_address (hs a)
   \<and> ha_shared_key_mn_ha (snd (process_registration c self fa mn reg outcome hs) a) = ha_shared_key_mn_ha (hs a)
   \<and> ha_nonce_ha (snd (process_registration c self fa mn reg outcome hs) a) = ha_nonce_ha (hs a)
   \<and> peers (snd (process_registration c self fa mn reg outcome hs) a) = peers (hs a)
   \<and> (a \<noteq> self \<longrightarrow> snd (process_registration c self fa mn reg outcome hs) a = hs a)"
  by (cases "rd_temp_identity (data reg) = Some (generate_hash c (mn_identity mn @ rd_nonce_mn (data reg)))")
     (simp_all add: process_registration_match process_registration_mismatch)

text \<open>
  C9. \<open>add_route\<close> returns normally whatever the route command does, and
  \<open>process_registration\<close> gives the same result and the same store for every outcome of
  the route command: when the check passes, a success response and the binding stored
  under the node's identity.
\<close>

theorem registration_independent_of_route:
  "add_route destination gateway outcome = Inr ()
   \<and> process_registration c self fa mn reg outcome hs = process_registration c self fa mn reg RouteAdded hs
   \<and> (rd_temp_identity (data reg) = Some (generate_hash c (mn_identity mn @ rd_nonce_mn (data reg))) \<longrightarrow>
        (\<exists>b. fst (process_registration c self fa mn reg outcome hs) = Inr \<lparr>status = ''success'', binding = b\<rparr>
            \<and> bindings (snd (process_registration c self fa mn reg outcome hs) self) (mn_identity mn) = Some b
            \<and> b_coa b = rd_coa (data reg)))"
  by (cases "rd_temp_identity (data reg) = Some (generate_hash c (mn_identity mn @ rd_nonce_mn (data reg)))")
     (simp_all add: process_registration_match process_registration_mismatch add_route_returns)

theorem registration_independent_of_route_witness:
  "process_registration ex_crypto 0 ex_FA123 ex_MN1 (ex_request ''h:MN1n1'') CalledProcessError ex_store
     = process_registration ex_crypto 0 ex_FA123 ex_MN1 (ex_request ''h:MN1n1'') RouteAdded ex_store
   \<and> (\<exists>b. fst (process_registration ex_crypto 0 ex_FA123 ex_MN1 (ex_request ''h:MN1n1'')
                  CalledProcessError ex_store) = Inr \<lparr>status = ''success'', binding = b\<rparr>
          \<and> bindings (snd (process_registration ex_crypto 0 ex_FA123 ex_MN1 (ex_request ''h:MN1n1'')
                  CalledProcessError ex_store) 0) ''MN1'' = Some b
          \<and> b_coa b = ''10.1.0.7'')"
proof -
  have ok: "rd_temp_identity (data (ex_request ''h:MN1n1'')) =
     Some (generate_hash ex_crypto (mn_identity ex_MN1 @ rd_nonce_mn (data (ex_request ''h:MN1n1''))))"
    by (simp add: ex_defs)
  have id: "mn_identity ex_MN1 = ''MN1''" "rd_coa (data (ex_request ''h:MN1n1'')) = ''10.1.0.7''"
    by (simp_all add: ex_defs)
  show ?thesis
    using registration_independent_of_route[of "''10.1.0.7''" "''192.168.1.1''" CalledProcessError
        ex_crypto 0 ex_FA123 ex_MN1 "ex_request ''h:MN1n1''" ex_store] ok
    unfolding id by blast
qed

text \<open>
  C10. \<open>HomeAgent.__init__\<close> gives every authority the secret \<open>"shared_secret_mn_ha"\<close>,
  and \<open>process_registration\<close> never changes it. So two authorities with equal own nonces
  derive the same session key from the same request forwarded by the same relay: the key
  is \<open>generate_hmac\<close> of the constant and of the node's nonce, the authority's nonce
  and the relay's identity.
\<close>

theorem shared_secret_constant:
  "(HomeAgent_init identity ip_address token draws S = Some (Inr h, S') \<longrightarrow>
      ha_shared_key_mn_ha h = ''shared_secret_mn_ha'' \<and> ha_nonce_ha h = token)
   \<and> ha_shared_key_mn_ha (snd (process_registration c self fa mn reg outcome hs) a)
       = ha_shared_key_mn_ha (hs a)
   \<and> (ha_shared_key_mn_ha (hs1 a1) = ''shared_secret_mn_ha''
        \<and> ha_shared_key_mn_ha (hs2 a2) = ''shared_secret_mn_ha''
        \<and> ha_nonce_ha (hs1 a1) = ha_nonce_ha (hs2 a2)
        \<and> rd_temp_identity (data reg) = Some (generate_hash c (mn_identity mn @ rd_nonce_mn (data reg))) \<longrightarrow>
      (\<exists>b1 b2. fst (process_registration c a1 fa mn reg outcome1 hs1) = Inr \<lparr>status = ''success'', binding = b1\<rparr>
         \<and> fst (process_registration c a2 fa mn reg outcome2 hs2) = Inr \<lparr>status = ''success'', binding = b2\<rparr>
         \<and> b_shared_key_mn_fa b1 = b_shared_key_mn_fa b2
         \<and> b_shared_key_mn_fa b1 = generate_hmac c ''shared_secret_mn_ha''
              (rd_nonce_mn (data reg) @ ha_nonce_ha (hs1 a1) @ fa_identity fa)))"
proof -
  have 1: "ha_shared_key_mn_ha h = ''shared_secret_mn_ha'' \<and> ha_nonce_ha h = token"
    if "HomeAgent_init identity ip_address token draws S = Some (Inr h, S')"
    using that by (auto simp: HomeAgent_init_def split: option.splits sum.splits prod.splits)
  have 2: "ha_shared_key_mn_ha (snd (process_registration c self fa mn reg outcome hs) a)
       = ha_shared_key_mn_ha (hs a)"
    using process_registration_frame by blast
  show ?thesis using 1 2 by (auto simp: process_registration_match)
qed

theorem shared_secret_constant_witness:
  "HomeAgent_init ''HA123'' (Some ''192.168.1.1'') ''a1'' (\<lambda>i. 0) {} = Some (Inr ex_HA123, {})
   \<and> ha_shared_key_mn_ha ex_HA123 = ''shared_secret_mn_ha''
   \<and> (\<exists>b1 b2.
        fst (process_registration ex_crypto 0 ex_FA123 ex_MN1 (ex_request ''h:MN1n1'') RouteAdded ex_store)
          = Inr \<lparr>status = ''success'', binding = b1\<rparr>
      \<and> fst (process_registration ex_crypto 1 ex_FA123 ex_MN1 (ex_request ''h:MN1n1'') CalledProcessError
               (ex_store(1 := ex_HA456\<lparr>ha_nonce_ha := ''a1''\<rparr>)))
          = Inr \<lparr>status = ''success'', binding = b2\<rparr>
      \<and> b_shared_key_mn_fa b1 = b_shared_key_mn_fa b2
      \<and> b_shared_key_mn_fa b1 = ''m:shared_secret_mn_ha:n1a1FA123'')"
proof -
  have init: "HomeAgent_init ''HA123'' (Some ''192.168.1.1'') ''a1'' (\<lambda>i. 0) {} = Some (Inr ex_HA123, {})"
    by (simp add: HomeAgent_init_def ip_or_assign_def ex_defs)
  have ok: "rd_temp_identity (data (ex_request ''h:MN1n1'')) =
     Some (generate_hash ex_crypto (mn_identity ex_MN1 @ rd_nonce_mn (data (ex_request ''h:MN1n1''))))"
    by (simp add: ex_defs)
  have k1: "ha_shared_key_mn_ha (ex_store 0) = ''shared_secret_mn_ha''"
    and k2: "ha_shared_key_mn_ha ((ex_store(1 := ex_HA456\<lparr>ha_nonce_ha := ''a1''\<rparr>)) 1) = ''shared_secret_mn_ha''"
    and n: "ha_nonce_ha (ex_store 0) = ha_nonce_ha ((ex_store(1 := ex_HA456\<lparr>ha_nonce_ha := ''a1''\<rparr>)) 1)"
    by (simp_all add: ex_defs)
  have v: "generate_hmac ex_crypto ''shared_secret_mn_ha''
             (rd_nonce_mn (data (ex_request ''h:MN1n1'')) @ ha_nonce_ha (ex_store 0) @ fa_identity ex_FA123)
           = ''m:shared_secret_mn_ha:n1a1FA123''"
    by (simp add: ex_defs)
  note inst = shared_secret_constant[of "''HA123''" "Some ''192.168.1.1''" "''a1''" "\<lambda>i. 0" "{}" ex_HA123 "{}"
      ex_crypto 0 ex_FA123 ex_MN1 "ex_request ''h:MN1n1''" RouteAdded ex_store 0
      ex_store 0 "ex_store(1 := ex_HA456\<lparr>ha_nonce_ha := ''a1''\<rparr>)" 1 RouteAdded CalledProcessError]
  from inst init have a: "ha_shared_key_mn_ha ex_HA123 = ''shared_secret_mn_ha''" by blast
  from inst k1 k2 n ok have "\<exists>b1 b2.
        fst (process_registration ex_crypto 0 ex_FA123 ex_MN1 (ex_request ''h:MN1n1'') RouteAdded ex_store)
          = Inr \<lparr>status = ''success'', binding = b1\<rparr>
      \<and> fst (process_registration ex_crypto 1 ex_FA123 ex_MN1 (ex_request ''h:MN1n1'') CalledProcessError
               (ex_store(1 := ex_HA456\<lparr>ha_nonce_ha := ''a1''\<rparr>)))
          = Inr \<lparr>status = ''success'', binding = b2\<rparr>
      \<and> b_shared_key_mn_fa b1 = b_shared_key_mn_fa b2
      \<and> b_shared_key_mn_fa b1 = generate_hmac ex_crypto ''shared_secret_mn_ha''
             (rd_nonce_mn (data (ex_request ''h:MN1n1'')) @ ha_nonce_ha (ex_store 0) @ fa_identity ex_FA123)"
    by blast
  with init a show ?thesis unfolding v by blast
qed

lemma data_add_nonce: "data (add_nonce reg n) = data reg"
  by (simp add: add_nonce_def)

lemma handle_registration_request_eq:
  "handle_registration_request c fa mn ha reg outcome hs =
     (fst (process_registration c ha fa mn (add_nonce reg (nonce_fa fa)) outcome hs),
      add_nonce reg (nonce_fa fa),
      snd (process_registration c ha fa mn (add_nonce reg (nonce_fa fa)) outcome hs))"
  by (simp add: handle_registration_request_def Let_def split: prod.splits)

lemma handle_registration_request_match:
  assumes "rd_temp_identity (data reg) = Some (generate_hash c (mn_identity mn @ rd_nonce_mn (data reg)))"
  shows "handle_registration_request c fa mn ha reg outcome hs =
     (Inr \<lparr>status = ''success'',
           binding = \<lparr>b_temp_identity = rd_temp_identity (data reg),
                      b_shared_key_mn_fa = generate_hmac c (ha_shared_key_mn_ha (hs ha))
                         (rd_nonce_mn (data reg) @ ha_nonce_ha (hs ha) @ fa_identity fa),
                      b_nonce_ha = ha_nonce_ha (hs ha),
                      b_coa = rd_coa (data reg),
                      b_foreign_agent = fa_ip_address fa\<rparr>\<rparr>,
      add_nonce reg (nonce_fa fa),
      hs(ha := (hs ha)\<lparr>bindings := (bindings (hs ha))(mn_identity mn \<mapsto>
                    \<lparr>b_temp_identity = rd_temp_identity (data reg),
                      b_shared_key_mn_fa = generate_hmac c (ha_shared_key_mn_ha (hs ha))
                         (rd_nonce_mn (data reg) @ ha_nonce_ha (hs ha) @ fa_identity fa),
                      b_nonce_ha = ha_nonce_ha (hs ha),
                      b_coa = rd_coa (data reg),
                      b_foreign_agent = fa_ip_address fa\<rparr>)\<rparr>))"
  using assms by (simp add: handle_registration_request_eq data_add_nonce process_registration_match)

lemma handle_registration_request_mismatch:
  assumes "rd_temp_identity (data reg) \<noteq> Some (generate_hash c (mn_identity mn @ rd_nonce_mn (data reg)))"
  shows "handle_registration_request c fa mn ha reg outcome hs =
     (Inl (Exception ''Invalid registration data''), add_nonce reg (nonce_fa fa), hs)"
  using assms by (simp add: handle_registration_request_eq data_add_nonce process_registration_mismatch)

text \<open>
  C8. Every request, a registration or a re-registration, reaches the authority through
  \<open>handle_registration_request\<close>. When it succeeds, the authority's \<open>bindings\<close> are the
  old ones with the entry of the node's identity set to the new binding: if the node
  had a binding there, the set of keys and their number are unchanged; no other entry and
  no other authority changes. The dictionary has one entry per identity.
\<close>

theorem registration_replaces_binding:
  assumes "handle_registration_request c fa mn ha reg outcome hs = (Inr resp, reg', hs')"
  shows "bindings (hs' ha) = (bindings (hs ha))(mn_identity mn \<mapsto> binding resp)
       \<and> b_coa (binding resp) = rd_coa (data reg)
       \<and> dom (bindings (hs' ha)) = insert (mn_identity mn) (dom (bindings (hs ha)))
       \<and> (mn_identity mn \<in> dom (bindings (hs ha)) \<longrightarrow>
            dom (bindings (hs' ha)) = dom (bindings (hs ha))
            \<and> card (dom (bindings (hs' ha))) = card (dom (bindings (hs ha))))
       \<and> (\<forall>i. i \<noteq> mn_identity mn \<longrightarrow> bindings (hs' ha) i = bindings (hs ha) i)
       \<and> (\<forall>a. a \<noteq> ha \<longrightarrow> hs' a = hs a)"
proof (cases "rd_temp_identity (data reg) = Some (generate_hash c (mn_identity mn @ rd_nonce_mn (data reg)))")
  case True
  from assms[unfolded handle_registration_request_match[OF True]]
  have r: "binding resp = \<lparr>b_temp_identity = rd_temp_identity (data reg),
                      b_shared_key_mn_fa = generate_hmac c (ha_shared_key_mn_ha (hs ha))
                         (rd_nonce_mn (data reg) @ ha_nonce_ha (hs ha) @ fa_identity fa),
                      b_nonce_ha = ha_nonce_ha (hs ha),
                      b_coa = rd_coa (data reg),
                      b_foreign_agent = fa_ip_address fa\<rparr>"
    and h: "hs' = hs(ha := (hs ha)\<lparr>bindings := (bindings (hs ha))(mn_identity mn \<mapsto> binding resp)\<rparr>)"
    by auto
  have b: "bindings (hs' ha) = (bindings (hs ha))(mn_identity mn \<mapsto> binding resp)"
    by (simp add: h)
  have d: "dom (bindings (hs' ha)) = insert (mn_identity mn) (dom (bindings (hs ha)))"
    by (simp add: b)
  have e: "dom (bindings (hs' ha)) = dom (bindings (hs ha))" if "mn_identity mn \<in> dom (bindings (hs ha))"
    using that d by auto
  have o: "\<forall>a. a \<noteq> ha \<longrightarrow> hs' a = hs a" by (simp add: h)
  show ?thesis using b d e o r by simp
next
  case False
  from assms[unfolded handle_registration_request_mismatch[OF False]] show ?thesis by simp
qed

lemma initiate_registration_eq:
  "initiate_registration c mn ha fa outcome hs =
     (Inr \<lparr>status = ''success'',
           binding = \<lparr>b_temp_identity = Some (generate_hash c (mn_identity mn @ mn_nonce_mn mn)),
                      b_shared_key_mn_fa = generate_hmac c (ha_shared_key_mn_ha (hs ha))
                         (mn_nonce_mn mn @ ha_nonce_ha (hs ha) @ fa_identity fa),
                      b_nonce_ha = ha_nonce_ha (hs ha),
                      b_coa = mn_coa mn,
                      b_foreign_agent = fa_ip_address fa\<rparr>\<rparr>,
      \<lparr>request_type = ''registration'', target = ha,
        data = \<lparr>rd_temp_identity = Some (generate_hash c (mn_identity mn @ mn_nonce_mn mn)),
                rd_nonce_mn = mn_nonce_mn mn, rd_coa = mn_coa mn\<rparr>,
        nonce = Some (nonce_fa fa)\<rparr>,
      mn\<lparr>mn_temp_identity := Some (generate_hash c (mn_identity mn @ mn_nonce_mn mn))\<rparr>,
      hs(ha := (hs ha)\<lparr>bindings := (bindings (hs ha))(mn_identity mn \<mapsto>
                    \<lparr>b_temp_identity = Some (generate_hash c (mn_identity mn @ mn_nonce_mn mn)),
                      b_shared_key_mn_fa = generate_hmac c (ha_shared_key_mn_ha (hs ha))
                         (mn_nonce_mn mn @ ha_nonce_ha (hs ha) @ fa_identity fa),
                      b_nonce_ha = ha_nonce_ha (hs ha),
                      b_coa = mn_coa mn,
                      b_foreign_agent = fa_ip_address fa\<rparr>)\<rparr>))"
  by (simp add: initiate_registration_def Let_def Registration_init_def
      handle_registration_request_match add_nonce_def)

lemma ex_MN1_registered_eq:
  "ex_MN1_registered = ex_MN1\<lparr>mn_temp_identity := Some ''h:MN1n1''\<rparr>"
  by (simp add: ex_MN1_registered_def initiate_registration_eq) (simp add: ex_defs)

lemma ex_store_registered_eq:
  "ex_store_registered = ex_store(0 := ex_HA123\<lparr>bindings :=
     [''MN1'' \<mapsto> \<lparr>b_temp_identity = Some ''h:MN1n1'',
                    b_shared_key_mn_fa = ''m:shared_secret_mn_ha:n1a1FA123'',
                    b_nonce_ha = ''a1'', b_coa = ''10.1.0.7'',
                    b_foreign_agent = ''192.168.2.1''\<rparr>]\<rparr>)"
  by (simp add: ex_store_registered_def initiate_registration_eq) (simp add: ex_defs)

theorem registration_replaces_binding_witness:
  "dom (bindings (ex_store_registered 0)) = {''MN1''}
   \<and> (\<exists>resp reg' hs'.
         re_register_with_original_ha ex_crypto (ex_MN1_registered\<lparr>mn_coa := ''10.1.0.9''\<rparr>)
           ex_FA456 CalledProcessError ex_store_registered = (Inr resp, reg', hs')
       \<and> request_type reg' = ''re-registration''
       \<and> dom (bindings (hs' 0)) = {''MN1''}
       \<and> bindings (hs' 0) ''MN1'' = Some (binding resp)
       \<and> b_coa (binding resp) = ''10.1.0.9''
       \<and> hs' 1 = ex_store_registered 1)"
proof -
  let ?mn = "ex_MN1_registered\<lparr>mn_coa := ''10.1.0.9''\<rparr>"
  let ?reg = "Registration_init ''re-registration'' (original_ha ?mn)
     \<lparr>rd_temp_identity = mn_temp_identity ?mn, rd_nonce_mn = mn_nonce_mn ?mn, rd_coa = mn_coa ?mn\<rparr>"
  have d0: "dom (bindings (ex_store_registered 0)) = {''MN1''}"
    by (simp add: ex_store_registered_eq)
  have o: "original_ha ?mn = 0" "mn_identity ?mn = ''MN1''" "rd_coa (data ?reg) = ''10.1.0.9''"
    by (simp_all add: ex_MN1_registered_eq ex_MN1_def Registration_init_def)
  have ok: "rd_temp_identity (data ?reg) =
      Some (generate_hash ex_crypto (mn_identity ?mn @ rd_nonce_mn (data ?reg)))"
    by (simp add: ex_MN1_registered_eq ex_MN1_def Registration_init_def ex_crypto_def)
  have re: "re_register_with_original_ha ex_crypto ?mn ex_FA456 CalledProcessError ex_store_registered
     = handle_registration_request ex_crypto ex_FA456 ?mn 0 ?reg CalledProcessError ex_store_registered"
    by (simp add: re_register_with_original_ha_def Let_def o)
  obtain resp reg' hs' where h: "handle_registration_request ex_crypto ex_FA456 ?mn 0 ?reg
     CalledProcessError ex_store_registered = (Inr resp, reg', hs')"
    and rt: "request_type reg' = ''re-registration''"
    using handle_registration_request_match[OF ok, of ex_FA456 0 CalledProcessError ex_store_registered]
    by (simp add: add_nonce_def Registration_init_def)
  from registration_replaces_binding[OF h] d0 o
  have "dom (bindings (hs' 0)) = {''MN1''}" "bindings (hs' 0) ''MN1'' = Some (binding resp)"
    "b_coa (binding resp) = ''10.1.0.9''" "hs' 1 = ex_store_registered 1"
    by simp_all
  with d0 re h rt show ?thesis by simp
qed

section \<open>Properties of a move\<close>

lemma assign_ip_mn_cases:
  "assign_ip ''mn'' draws S = None \<or>
   (\<exists>ip. assign_ip ''mn'' draws S = Some (Inr ip, insert ip S) \<and> ip \<notin> S)"
proof (cases "assign_ip ''mn'' draws S")
  case None
  then show ?thesis by simp
next
  case (Some r)
  have m: "network_id_map ''mn'' = Some ''10.1.0''" by (simp add: network_id_map_def)
  obtain x S' where r: "r = (x, S')" by (cases r)
  show ?thesis
  proof (cases x)
    case (Inl e)
    with Some r assign_ip_Inl[of "''mn''" draws S e S'] m show ?thesis by simp
  next
    case (Inr ip)
    with Some r assign_ip_Inr[of "''mn''" draws S ip S'] show ?thesis by simp
  qed
qed

lemma move_to_new_network_eq:
  assumes "assign_ip ''mn'' draws S = Some (Inr ip, S')"
  shows "move_to_new_network c mn ha fa draws token outcome1 outcome2 S hs =
    (let t = Some (generate_hash c (mn_identity mn @ token));
         mn' = mn\<lparr>mn_coa := ip, home_agent := ha, mn_nonce_mn := token, mn_temp_identity := t\<rparr>;
         d = \<lparr>rd_temp_identity = t, rd_nonce_mn = token, rd_coa = ip\<rparr>;
         b1 = \<lparr>b_temp_identity = t,
               b_shared_key_mn_fa = generate_hmac c (ha_shared_key_mn_ha (hs (original_ha mn)))
                  (token @ ha_nonce_ha (hs (original_ha mn)) @ fa_identity fa),
               b_nonce_ha = ha_nonce_ha (hs (original_ha mn)),
               b_coa = ip, b_foreign_agent = fa_ip_address fa\<rparr>;
         hs1 = hs(original_ha mn := (hs (original_ha mn))\<lparr>bindings :=
                 (bindings (hs (original_ha mn)))(mn_identity mn \<mapsto> b1)\<rparr>);
         b2 = \<lparr>b_temp_identity = t,
               b_shared_key_mn_fa = generate_hmac c (ha_shared_key_mn_ha (hs1 ha))
                  (token @ ha_nonce_ha (hs1 ha) @ fa_identity fa),
               b_nonce_ha = ha_nonce_ha (hs1 ha),
               b_coa = ip, b_foreign_agent = fa_ip_address fa\<rparr>;
         hs2 = hs1(ha := (hs1 ha)\<lparr>bindings := (bindings (hs1 ha))(mn_identity mn \<mapsto> b2)\<rparr>)
     in Some \<lparr>mv_response = Inr \<lparr>status = ''success'', binding = b2\<rparr>,
              mv_node = mn', mv_assigned_ips = S', mv_has = hs2,
              mv_sent = [\<lparr>request_type = ''re-registration'', target = original_ha mn, data = d,
                           nonce = Some (nonce_fa fa)\<rparr>,
                         \<lparr>request_type = ''registration'', target = ha, data = d,
                           nonce = Some (nonce_fa fa)\<rparr>]\<rparr>)"
  using assms
  by (simp add: move_to_new_network_def Let_def re_register_with_original_ha_def
      handle_registration_request_match Registration_init_def add_nonce_def)

text \<open>
  C3. \<open>move_to_new_network\<close> returns exactly when its \<open>assign_ip\<close> call returns. When it
  has returned, the response is a success; the node's care-of address is a new one, not
  held before; its original authority is the same as before; the original authority and
  the new authority \<open>ha\<close> each hold a binding for the node's identity whose care-of
  address is the new one, whichever authority \<open>ha\<close> is; and two requests were sent, a
  re-registration to the original authority and a registration to \<open>ha\<close>, both carrying
  the new care-of address.
\<close>

theorem move_preserves_home_reachability:
  "(move_to_new_network c mn ha fa draws token outcome1 outcome2 S hs = None \<longleftrightarrow>
      assign_ip ''mn'' draws S = None)
   \<and> (\<forall>mv. move_to_new_network c mn ha fa draws token outcome1 outcome2 S hs = Some mv \<longrightarrow>
        (\<exists>resp. mv_response mv = Inr resp \<and> status resp = ''success'')
        \<and> mn_coa (mv_node mv) \<notin> S
        \<and> mv_assigned_ips mv = insert (mn_coa (mv_node mv)) S
        \<and> mn_identity (mv_node mv) = mn_identity mn
        \<and> original_ha (mv_node mv) = original_ha mn
        \<and> home_agent (mv_node mv) = ha
        \<and> (\<exists>b. bindings (mv_has mv (original_ha mn)) (mn_identity mn) = Some b
               \<and> b_coa b = mn_coa (mv_node mv))
        \<and> (\<exists>b. bindings (mv_has mv ha) (mn_identity mn) = Some b
               \<and> b_coa b = mn_coa (mv_node mv))
        \<and> (\<exists>r1 r2. mv_sent mv = [r1, r2]
               \<and> request_type r1 = ''re-registration'' \<and> target r1 = original_ha mn
               \<and> rd_coa (data r1) = mn_coa (mv_node mv)
               \<and> request_type r2 = ''registration'' \<and> target r2 = ha
               \<and> rd_coa (data r2) = mn_coa (mv_node mv)))"
proof -
  from assign_ip_mn_cases[of draws S] show ?thesis
  proof
    assume "assign_ip ''mn'' draws S = None"
    then show ?thesis by (simp add: move_to_new_network_def)
  next
    assume "\<exists>ip. assign_ip ''mn'' draws S = Some (Inr ip, insert ip S) \<and> ip \<notin> S"
    then obtain ip where a: "assign_ip ''mn'' draws S = Some (Inr ip, insert ip S)" and f: "ip \<notin> S"
      by blast
    show ?thesis
      unfolding move_to_new_network_eq[OF a] using a f by (simp add: Let_def)
  qed
qed

lemma ex_assign_second_draw:
  "assign_ip ''mn'' (\<lambda>i. 7 + i) {''10.1.0.7''} = Some (Inr ''10.1.0.8'', {''10.1.0.8'', ''10.1.0.7''})"
  by (simp add: pool_eval)

theorem move_preserves_home_reachability_witness:
  "\<exists>mv. move_to_new_network ex_crypto ex_MN1_registered 1 ex_FA456 (\<lambda>i. 7 + i) ''n2''
           RouteAdded CalledProcessError {''10.1.0.7''} ex_store_registered = Some mv
      \<and> mn_coa (mv_node mv) = ''10.1.0.8''
      \<and> original_ha (mv_node mv) = 0 \<and> home_agent (mv_node mv) = 1
      \<and> (\<exists>b. bindings (mv_has mv 0) ''MN1'' = Some b \<and> b_coa b = ''10.1.0.8'')
      \<and> (\<exists>b. bindings (mv_has mv 1) ''MN1'' = Some b \<and> b_coa b = ''10.1.0.8'')"
proof -
  note inst = move_preserves_home_reachability[of ex_crypto ex_MN1_registered 1 ex_FA456
      "\<lambda>i. 7 + i" "''n2''" RouteAdded CalledProcessError "{''10.1.0.7''}" ex_store_registered]
  from inst ex_assign_second_draw obtain mv where
    mv: "move_to_new_network ex_crypto ex_MN1_registered 1 ex_FA456 (\<lambda>i. 7 + i) ''n2''
           RouteAdded CalledProcessError {''10.1.0.7''} ex_store_registered = Some mv"
    by (cases "move_to_new_network ex_crypto ex_MN1_registered 1 ex_FA456 (\<lambda>i. 7 + i) ''n2''
           RouteAdded CalledProcessError {''10.1.0.7''} ex_store_registered") auto
  have c: "mn_coa (mv_node mv) = ''10.1.0.8''"
    using mv unfolding move_to_new_network_eq[OF ex_assign_second_draw] by (auto simp: Let_def)
  have o: "original_ha ex_MN1_registered = 0" "mn_identity ex_MN1_registered = ''MN1''"
    by (simp_all add: ex_MN1_registered_eq ex_MN1_def)
  from inst mv have
    "original_ha (mv_node mv) = original_ha ex_MN1_registered" "home_agent (mv_node mv) = 1"
    "\<exists>b. bindings (mv_has mv (original_ha ex_MN1_registered)) (mn_identity ex_MN1_registered) = Some b
        \<and> b_coa b = mn_coa (mv_node mv)"
    "\<exists>b. bindings (mv_has mv 1) (mn_identity ex_MN1_registered) = Some b
        \<and> b_coa b = mn_coa (mv_node mv)"
    by blast+
  then show ?thesis using mv c unfolding o by (intro exI[of _ mv]) simp
qed

text \<open>
  The whole of \<open>move_mobile_node\<close>, clean-up included: once a network was selected and
  the call has returned, it has raised nothing, the node in the registry has a new
  care-of address and its original authority unchanged, the original authority holds a
  binding of the node with the new care-of address, and the authority the node left has
  no binding under \<open>mn_id\<close> unless it is the original one.
\<close>

theorem move_mobile_node_keeps_home_binding:
  assumes reg: "mn_registry w mn_id = Some mn"
    and idx: "selected_index < length (available_networks w (home_agent mn))"
    and run: "move_mobile_node c mn_id selected_index draws token outcome1 outcome2 w = Some (r, w')"
  shows "r = Inr ()
       \<and> (\<exists>mn' b. mn_registry w' mn_id = Some mn'
             \<and> original_ha mn' = original_ha mn
             \<and> home_agent mn' = fst (snd (available_networks w (home_agent mn) ! selected_index))
             \<and> mn_coa mn' \<notin> assigned_ips w
             \<and> assigned_ips w' = insert (mn_coa mn') (assigned_ips w)
             \<and> bindings (has w' (original_ha mn)) (mn_identity mn) = Some b
             \<and> b_coa b = mn_coa mn')
       \<and> (home_agent mn \<noteq> original_ha mn \<longrightarrow> bindings (has w' (home_agent mn)) mn_id = None)"
proof -
  obtain new_ha_id new_ha new_fa_id new_fa where
    sel: "available_networks w (home_agent mn) ! selected_index = (new_ha_id, new_ha, new_fa_id, new_fa)"
    by (cases "available_networks w (home_agent mn) ! selected_index") auto
  from idx have ne: "available_networks w (home_agent mn) \<noteq> []" by auto
  from assign_ip_mn_cases[of draws "assigned_ips w"] show ?thesis
  proof
    assume "assign_ip ''mn'' draws (assigned_ips w) = None"
    then have "move_to_new_network c mn new_ha new_fa draws token outcome1 outcome2
        (assigned_ips w) (has w) = None"
      by (simp add: move_to_new_network_def)
    with run reg idx ne sel show ?thesis
      by (simp add: move_mobile_node_def Let_def)
  next
    assume "\<exists>ip. assign_ip ''mn'' draws (assigned_ips w) = Some (Inr ip, insert ip (assigned_ips w))
       \<and> ip \<notin> assigned_ips w"
    then obtain ip where a: "assign_ip ''mn'' draws (assigned_ips w) = Some (Inr ip, insert ip (assigned_ips w))"
      and f: "ip \<notin> assigned_ips w" by blast
    note mv = move_to_new_network_eq[OF a, of c mn new_ha new_fa token outcome1 outcome2 "has w"]
    from run reg idx ne sel f show ?thesis
      by (auto simp: move_mobile_node_def Let_def mv split: if_splits)
  qed
qed

lemma ex_assign_third_draw:
  "assign_ip ''mn'' (\<lambda>i. 7 + i) {''10.1.0.7'', ''10.1.0.8''}
     = Some (Inr ''10.1.0.9'', insert ''10.1.0.9'' {''10.1.0.7'', ''10.1.0.8''})"
  by (simp add: pool_eval)

lemma ex_world_fields:
  "mn_registry ex_world ''MN1'' = Some (ex_MN1\<lparr>mn_temp_identity := Some ''h:MN1n2'',
      mn_nonce_mn := ''n2'', mn_coa := ''10.1.0.8'', home_agent := 1\<rparr>)"
  "assigned_ips ex_world = {''10.1.0.7'', ''10.1.0.8''}"
  "available_networks ex_world 1 = [(''HA123'', 0, ''FA123'', ex_FA123), (''HA789'', 2, ''FA789'', ex_FA789)]"
  by (simp_all add: ex_world_def available_networks_def ex_ha_registry_def ex_HA456_def)

theorem move_mobile_node_keeps_home_binding_witness:
  "\<exists>w'. move_mobile_node ex_crypto ''MN1'' 1 (\<lambda>i. 7 + i) ''n3'' RouteAdded CalledProcessError ex_world
           = Some (Inr (), w')
      \<and> (\<exists>mn' b. mn_registry w' ''MN1'' = Some mn' \<and> original_ha mn' = 0 \<and> home_agent mn' = 2
            \<and> bindings (has w' 0) ''MN1'' = Some b \<and> b_coa b = mn_coa mn')
      \<and> bindings (has w' 1) ''MN1'' = None"
proof -
  let ?mn = "ex_MN1\<lparr>mn_temp_identity := Some ''h:MN1n2'', mn_nonce_mn := ''n2'',
      mn_coa := ''10.1.0.8'', home_agent := 1\<rparr>"
  have reg: "mn_registry ex_world ''MN1'' = Some ?mn" by (rule ex_world_fields(1))
  have f: "home_agent ?mn = 1" "original_ha ?mn = 0" "mn_identity ?mn = ''MN1''"
    by (simp_all add: ex_MN1_def)
  have idx: "1 < length (available_networks ex_world (home_agent ?mn))"
    unfolding f ex_world_fields by simp
  have sel: "fst (snd (available_networks ex_world 1 ! 1)) = 2"
    unfolding ex_world_fields by simp
  have "move_to_new_network ex_crypto ?mn 2 ex_FA789 (\<lambda>i. 7 + i) ''n3'' RouteAdded CalledProcessError
      (assigned_ips ex_world) (has ex_world) \<noteq> None"
    unfolding ex_world_fields move_to_new_network_eq[OF ex_assign_third_draw] by (simp add: Let_def)
  then have "move_mobile_node ex_crypto ''MN1'' 1 (\<lambda>i. 7 + i) ''n3'' RouteAdded CalledProcessError ex_world
      \<noteq> None"
    unfolding move_mobile_node_def reg using ex_world_fields(3)
    by (auto simp: Let_def split: option.splits sum.splits)
  then obtain r w' where run: "move_mobile_node ex_crypto ''MN1'' 1 (\<lambda>i. 7 + i) ''n3'' RouteAdded
      CalledProcessError ex_world = Some (r, w')" by auto
  note inst = move_mobile_node_keeps_home_binding[OF reg idx run, unfolded f sel]
  have a: "r = Inr ()" by (rule inst[THEN conjunct1])
  from inst[THEN conjunct2, THEN conjunct1] obtain mn' b where
    b: "mn_registry w' ''MN1'' = Some mn'" "original_ha mn' = 0" "home_agent mn' = 2"
       "bindings (has w' 0) ''MN1'' = Some b" "b_coa b = mn_coa mn'" by (elim exE conjE) assumption
  have d: "bindings (has w' 1) ''MN1'' = None"
    using inst[THEN conjunct2, THEN conjunct2] by simp
  have e: "\<exists>mn' b. mn_registry w' ''MN1'' = Some mn' \<and> original_ha mn' = 0 \<and> home_agent mn' = 2
            \<and> bindings (has w' 0) ''MN1'' = Some b \<and> b_coa b = mn_coa mn'"
    by (rule exI[of _ mn'], rule exI[of _ b]) (intro conjI b)
  show ?thesis by (rule exI[of _ w']) (intro conjI run[unfolded a] e d)
qed

section \<open>Nonces\<close>

text \<open>
  Two registrations of two nodes, each with a nonce of its own, forwarded by the relay
  \<open>FA123\<close> one after the other: both requests leave the relay stamped with the same
  relay nonce.
\<close>

theorem relay_nonce_reused_counterexample:
  "nonce (fst (snd (initiate_registration ex_crypto ex_MN1 0 ex_FA123 RouteAdded ex_store))) = Some ''f1''
   \<and> nonce (fst (snd (initiate_registration ex_crypto ex_MN2 0 ex_FA123 RouteAdded ex_store_registered)))
       = Some ''f1''
   \<and> rd_nonce_mn (data (fst (snd (initiate_registration ex_crypto ex_MN1 0 ex_FA123 RouteAdded ex_store))))
       = ''n1''
   \<and> rd_nonce_mn (data (fst (snd (initiate_registration ex_crypto ex_MN2 0 ex_FA123 RouteAdded
         ex_store_registered)))) = ''n9''"
  by (simp add: initiate_registration_eq) (simp add: ex_defs)

text \<open>
  C6, as the code has it. A relay's nonce is the token generated in
  \<open>ForeignAgent.__init__\<close>, and \<open>handle_registration_request\<close> stamps every request it
  forwards with that one nonce, leaving the payload as it is. A node's nonce is the token
  generated in \<open>MobileNode.__init__\<close>, which the initial registration carries;
  \<open>move_to_new_network\<close> replaces it by the newly generated token, and both requests of
  the move carry that token and the relay's nonce.
\<close>

theorem nonces_as_generated:
  "nonce (fst (snd (handle_registration_request c fa mn ha reg outcome hs))) = Some (nonce_fa fa)
   \<and> data (fst (snd (handle_registration_request c fa mn ha reg outcome hs))) = data reg
   \<and> (ForeignAgent_init fid fip ftok fdraws fS = Some (Inr fa', fS') \<longrightarrow> nonce_fa fa' = ftok)
   \<and> (MobileNode_init mid mha mtok mdraws mS = Some (Inr mn', mS') \<longrightarrow> mn_nonce_mn mn' = mtok)
   \<and> rd_nonce_mn (data (fst (snd (initiate_registration c mn ha fa outcome hs)))) = mn_nonce_mn mn
   \<and> nonce (fst (snd (initiate_registration c mn ha fa outcome hs))) = Some (nonce_fa fa)
   \<and> (\<forall>mv. move_to_new_network c mn ha fa draws token outcome1 outcome2 S hs = Some mv \<longrightarrow>
         mn_nonce_mn (mv_node mv) = token
         \<and> length (mv_sent mv) = 2
         \<and> (\<forall>r. r \<in> set (mv_sent mv) \<longrightarrow>
               rd_nonce_mn (data r) = token \<and> nonce r = Some (nonce_fa fa)))"
proof -
  have 1: "nonce (fst (snd (handle_registration_request c fa mn ha reg outcome hs))) = Some (nonce_fa fa)"
    "data (fst (snd (handle_registration_request c fa mn ha reg outcome hs))) = data reg"
    by (simp_all add: handle_registration_request_eq add_nonce_def)
  have 2: "nonce_fa fa' = ftok" if "ForeignAgent_init fid fip ftok fdraws fS = Some (Inr fa', fS')"
    using that by (auto simp: ForeignAgent_init_def split: option.splits sum.splits prod.splits)
  have 3: "mn_nonce_mn mn' = mtok" if "MobileNode_init mid mha mtok mdraws mS = Some (Inr mn', mS')"
    using that by (auto simp: MobileNode_init_def split: option.splits sum.splits prod.splits)
  have 4: "rd_nonce_mn (data (fst (snd (initiate_registration c mn ha fa outcome hs)))) = mn_nonce_mn mn"
    "nonce (fst (snd (initiate_registration c mn ha fa outcome hs))) = Some (nonce_fa fa)"
    by (simp_all add: initiate_registration_eq)
  have 5: "mn_nonce_mn (mv_node mv) = token \<and> length (mv_sent mv) = 2
         \<and> (\<forall>r. r \<in> set (mv_sent mv) \<longrightarrow> rd_nonce_mn (data r) = token \<and> nonce r = Some (nonce_fa fa))"
    if mv: "move_to_new_network c mn ha fa draws token outcome1 outcome2 S hs = Some mv" for mv
  proof -
    from assign_ip_mn_cases[of draws S] mv obtain ip where
      a: "assign_ip ''mn'' draws S = Some (Inr ip, insert ip S)"
      by (auto simp: move_to_new_network_def)
    from mv show ?thesis unfolding move_to_new_network_eq[OF a] by (auto simp: Let_def)
  qed
  show ?thesis using 1 2 3 4 5 by blast
qed

theorem nonces_as_generated_witness:
  "ForeignAgent_init ''FA123'' (Some ''192.168.2.1'') ''f1'' (\<lambda>i. 0) {} = Some (Inr ex_FA123, {})
   \<and> nonce_fa ex_FA123 = ''f1''
   \<and> (\<exists>mv. move_to_new_network ex_crypto ex_MN1_registered 1 ex_FA456 (\<lambda>i. 7 + i) ''n2''
           RouteAdded CalledProcessError {''10.1.0.7''} ex_store_registered = Some mv
        \<and> mn_nonce_mn (mv_node mv) = ''n2''
        \<and> map (\<lambda>r. rd_nonce_mn (data r)) (mv_sent mv) = [''n2'', ''n2'']
        \<and> map nonce (mv_sent mv) = [Some ''f2'', Some ''f2''])"
proof -
  have i: "ForeignAgent_init ''FA123'' (Some ''192.168.2.1'') ''f1'' (\<lambda>i. 0) {} = Some (Inr ex_FA123, {})"
    by (simp add: ForeignAgent_init_def ip_or_assign_def ex_defs)
  note inst = nonces_as_generated[where c = ex_crypto and fa = ex_FA456 and mn = ex_MN1_registered
      and ha = 1 and hs = ex_store_registered and reg = "ex_request ''h:MN1n1''" and outcome = RouteAdded
      and fid = "''FA123''" and fip = "Some ''192.168.2.1''"
      and ftok = "''f1''" and fdraws = "\<lambda>i. 0" and fS = "{}" and fa' = ex_FA123 and fS' = "{}"
      and mid = "''MN1''" and mha = 0 and mtok = "''n1''" and mdraws = "\<lambda>i. 7" and mS = "{}"
      and mn' = ex_MN1 and mS' = "{''10.1.0.7''}"
      and draws = "\<lambda>i. 7 + i" and token = "''n2''" and ?outcome1.0 = RouteAdded
      and ?outcome2.0 = CalledProcessError and S = "{''10.1.0.7''}"]
  note c3 = inst[THEN conjunct2, THEN conjunct2, THEN conjunct1, rule_format]
  note c7 = inst[THEN conjunct2, THEN conjunct2, THEN conjunct2, THEN conjunct2, THEN conjunct2,
      THEN conjunct2, rule_format]
  obtain mv where mv: "move_to_new_network ex_crypto ex_MN1_registered 1 ex_FA456 (\<lambda>i. 7 + i) ''n2''
           RouteAdded CalledProcessError {''10.1.0.7''} ex_store_registered = Some mv"
    unfolding move_to_new_network_eq[OF ex_assign_second_draw] by (simp add: Let_def)
  have p1: "mn_nonce_mn (mv_node mv) = ''n2''" and p2: "length (mv_sent mv) = 2"
    using c7[OF mv] by blast+
  have p3: "rd_nonce_mn (data r) = ''n2'' \<and> nonce r = Some (nonce_fa ex_FA456)"
    if "r \<in> set (mv_sent mv)" for r
    using c7[OF mv] that by blast
  from p2 obtain r1 r2 where s: "mv_sent mv = [r1, r2]"
    by (auto simp: length_Suc_conv numeral_2_eq_2)
  have f: "nonce_fa ex_FA456 = ''f2''" by (simp add: ex_defs)
  have n: "nonce_fa ex_FA123 = ''f1''" using c3[OF i] .
  from p3[of r1] p3[of r2] s f have m:
    "map (\<lambda>r. rd_nonce_mn (data r)) (mv_sent mv) = [''n2'', ''n2'']"
    "map nonce (mv_sent mv) = [Some ''f2'', Some ''f2'']" by simp_all
  have ex: "\<exists>mv. move_to_new_network ex_crypto ex_MN1_registered 1 ex_FA456 (\<lambda>i. 7 + i) ''n2''
           RouteAdded CalledProcessError {''10.1.0.7''} ex_store_registered = Some mv
        \<and> mn_nonce_mn (mv_node mv) = ''n2''
        \<and> map (\<lambda>r. rd_nonce_mn (data r)) (mv_sent mv) = [''n2'', ''n2'']
        \<and> map nonce (mv_sent mv) = [Some ''f2'', Some ''f2'']"
    by (rule exI[of _ mv]) (intro conjI mv p1 m)
  show ?thesis by (intro conjI i n ex)
qed

section \<open>Properties of the mesh\<close>

lemma mesh_peers_fold:
  "fold (\<lambda>(peer_id, peer_ha) ps. if ha_id \<noteq> peer_id then insert peer_id ps else ps) reg acc
     = acc \<union> (fst ` set reg - {ha_id})"
  by (induction reg arbitrary: acc) (auto split: prod.splits)

lemma mesh_peers_eq: "mesh_peers ha_id reg = fst ` set reg - {ha_id}"
  by (simp add: mesh_peers_def mesh_peers_fold)

lemma mesh_fold_other:
  "a \<notin> snd ` set xs \<Longrightarrow>
   fold (\<lambda>(ha_id, ha) hs'. hs'(ha := (hs' ha)\<lparr>peers := f ha_id\<rparr>)) xs hs a = hs a"
  by (induction xs arbitrary: hs) (auto split: prod.splits)

lemma mesh_fold_fields:
  "ha_identity (fold (\<lambda>(ha_id, ha) hs'. hs'(ha := (hs' ha)\<lparr>peers := f ha_id\<rparr>)) xs hs a) = ha_identity (hs a)
   \<and> ha_ip_address (fold (\<lambda>(ha_id, ha) hs'. hs'(ha := (hs' ha)\<lparr>peers := f ha_id\<rparr>)) xs hs a) = ha_ip_address (hs a)
   \<and> ha_shared_key_mn_ha (fold (\<lambda>(ha_id, ha) hs'. hs'(ha := (hs' ha)\<lparr>peers := f ha_id\<rparr>)) xs hs a) = ha_shared_key_mn_ha (hs a)
   \<and> ha_nonce_ha (fold (\<lambda>(ha_id, ha) hs'. hs'(ha := (hs' ha)\<lparr>peers := f ha_id\<rparr>)) xs hs a) = ha_nonce_ha (hs a)
   \<and> bindings (fold (\<lambda>(ha_id, ha) hs'. hs'(ha := (hs' ha)\<lparr>peers := f ha_id\<rparr>)) xs hs a) = bindings (hs a)"
  by (induction xs arbitrary: hs) (auto split: prod.splits)

lemma mesh_fold_member:
  "distinct (map snd xs) \<Longrightarrow> (ha_id, a) \<in> set xs \<Longrightarrow>
   peers (fold (\<lambda>(ha_id, ha) hs'. hs'(ha := (hs' ha)\<lparr>peers := f ha_id\<rparr>)) xs hs a) = f ha_id"
proof (induction xs arbitrary: hs)
  case Nil
  then show ?case by simp
next
  case (Cons x xs)
  obtain i r where x: "x = (i, r)" by (cases x)
  show ?case
  proof (cases "(ha_id, a) \<in> set xs")
    case True
    with Cons x show ?thesis by simp
  next
    case False
    with Cons.prems x have eq: "i = ha_id" "r = a" by auto
    from Cons.prems(1) x eq have "a \<notin> snd ` set xs" by auto
    from mesh_fold_other[OF this, of f "hs(a := (hs a)\<lparr>peers := f ha_id\<rparr>)"]
    have "fold (\<lambda>(ha_id, ha) hs'. hs'(ha := (hs' ha)\<lparr>peers := f ha_id\<rparr>)) xs
            (hs(a := (hs a)\<lparr>peers := f ha_id\<rparr>)) a = (hs(a := (hs a)\<lparr>peers := f ha_id\<rparr>)) a" .
    then have "peers (fold (\<lambda>(ha_id, ha) hs'. hs'(ha := (hs' ha)\<lparr>peers := f ha_id\<rparr>)) xs
            (hs(a := (hs a)\<lparr>peers := f ha_id\<rparr>)) a) = f ha_id" by simp
    then show ?thesis unfolding x eq by (simp del: fun_upd_apply)
  qed
qed

lemma create_mesh_topology_peers:
  "distinct (map snd reg) \<Longrightarrow> (ha_id, a) \<in> set reg \<Longrightarrow>
   peers (create_mesh_topology reg hs a) = fst ` set reg - {ha_id}"
  unfolding create_mesh_topology_def
  using mesh_fold_member[of reg ha_id a "\<lambda>i. mesh_peers i reg" hs] by (simp add: mesh_peers_eq)

lemma mesh_fold_ext:
  assumes "\<And>a. ha_identity (h1 a) = ha_identity (h2 a) \<and> ha_ip_address (h1 a) = ha_ip_address (h2 a)
      \<and> ha_shared_key_mn_ha (h1 a) = ha_shared_key_mn_ha (h2 a) \<and> ha_nonce_ha (h1 a) = ha_nonce_ha (h2 a)
      \<and> bindings (h1 a) = bindings (h2 a)"
    and "\<And>a. a \<notin> snd ` set xs \<Longrightarrow> peers (h1 a) = peers (h2 a)"
  shows "fold (\<lambda>(ha_id, ha) hs'. hs'(ha := (hs' ha)\<lparr>peers := f ha_id\<rparr>)) xs (h1 :: ha_store)
       = fold (\<lambda>(ha_id, ha) hs'. hs'(ha := (hs' ha)\<lparr>peers := f ha_id\<rparr>)) xs h2"
  using assms
proof (induction xs arbitrary: h1 h2)
  case Nil
  have "h1 a = h2 a" for a using Nil(1)[of a] Nil(2)[of a] by (intro HomeAgent.equality) simp_all
  then show ?case by auto
next
  case (Cons x xs)
  obtain i r where x: "x = (i, r)" by (cases x)
  show ?case unfolding x fold_simps prod.case
  proof (rule Cons.IH)
    fix a
    show "ha_identity ((h1(r := (h1 r)\<lparr>peers := f i\<rparr>)) a) = ha_identity ((h2(r := (h2 r)\<lparr>peers := f i\<rparr>)) a)
      \<and> ha_ip_address ((h1(r := (h1 r)\<lparr>peers := f i\<rparr>)) a) = ha_ip_address ((h2(r := (h2 r)\<lparr>peers := f i\<rparr>)) a)
      \<and> ha_shared_key_mn_ha ((h1(r := (h1 r)\<lparr>peers := f i\<rparr>)) a) = ha_shared_key_mn_ha ((h2(r := (h2 r)\<lparr>peers := f i\<rparr>)) a)
      \<and> ha_nonce_ha ((h1(r := (h1 r)\<lparr>peers := f i\<rparr>)) a) = ha_nonce_ha ((h2(r := (h2 r)\<lparr>peers := f i\<rparr>)) a)
      \<and> bindings ((h1(r := (h1 r)\<lparr>peers := f i\<rparr>)) a) = bindings ((h2(r := (h2 r)\<lparr>peers := f i\<rparr>)) a)"
      using Cons.prems(1)[of a] Cons.prems(1)[of r] by simp
  next
    fix a assume "a \<notin> snd ` set xs"
    then show "peers ((h1(r := (h1 r)\<lparr>peers := f i\<rparr>)) a) = peers ((h2(r := (h2 r)\<lparr>peers := f i\<rparr>)) a)"
      using Cons.prems(2)[of a] x by (cases "a = r") auto
  qed
qed

lemma create_mesh_topology_idem:
  "create_mesh_topology reg (create_mesh_topology reg hs) = create_mesh_topology reg hs"
  unfolding create_mesh_topology_def
  by (rule mesh_fold_ext) (simp_all add: mesh_fold_fields mesh_fold_other)

text \<open>
  C7. Every entry of \<open>ha_registry\<close> is an object of its own (the registry never holds
  one \<open>HomeAgent\<close> under two identities). After \<open>create_mesh_topology\<close>, for all entries
  \<open>a\<close> and \<open>b\<close> of the registry, \<open>b\<close> is a peer of \<open>a\<close> exactly when they differ, so
  \<open>b\<close> is a peer of \<open>a\<close> exactly when \<open>a\<close> is a peer of \<open>b\<close>, no authority is its own
  peer, and the peers of \<open>a\<close> are all other identities of the registry. Building
  the mesh a second time changes nothing.
\<close>

theorem mesh_topology_full:
  assumes "distinct (map snd reg)"
  shows "(\<forall>a ra b rb. (a, ra) \<in> set reg \<and> (b, rb) \<in> set reg \<longrightarrow>
            (b \<in> peers (create_mesh_topology reg hs ra) \<longleftrightarrow> a \<noteq> b)
          \<and> (b \<in> peers (create_mesh_topology reg hs ra) \<longleftrightarrow>
               a \<in> peers (create_mesh_topology reg hs rb))
          \<and> a \<notin> peers (create_mesh_topology reg hs ra)
          \<and> peers (create_mesh_topology reg hs ra) = fst ` set reg - {a})
       \<and> create_mesh_topology reg (create_mesh_topology reg hs) = create_mesh_topology reg hs"
proof -
  have p: "peers (create_mesh_topology reg hs ra) = fst ` set reg - {a}" if "(a, ra) \<in> set reg" for a ra
    using create_mesh_topology_peers[OF assms that] .
  have q: "(b \<in> peers (create_mesh_topology reg hs ra) \<longleftrightarrow> a \<noteq> b)
          \<and> (b \<in> peers (create_mesh_topology reg hs ra) \<longleftrightarrow>
               a \<in> peers (create_mesh_topology reg hs rb))
          \<and> a \<notin> peers (create_mesh_topology reg hs ra)
          \<and> peers (create_mesh_topology reg hs ra) = fst ` set reg - {a}"
    if ab: "(a, ra) \<in> set reg" "(b, rb) \<in> set reg" for a ra b rb
  proof -
    have "a \<in> fst ` set reg" "b \<in> fst ` set reg" using ab by (auto intro: rev_image_eqI)
    then show ?thesis unfolding p[OF ab(1)] p[OF ab(2)] by auto
  qed
  show ?thesis
  proof (intro conjI allI impI)
    fix a ra b rb assume "(a, ra) \<in> set reg \<and> (b, rb) \<in> set reg"
    then have ab: "(a, ra) \<in> set reg" "(b, rb) \<in> set reg" by simp_all
    show "b \<in> peers (create_mesh_topology reg hs ra) \<longleftrightarrow> a \<noteq> b"
      by (rule q[OF ab, THEN conjunct1])
    show "b \<in> peers (create_mesh_topology reg hs ra) \<longleftrightarrow> a \<in> peers (create_mesh_topology reg hs rb)"
      by (rule q[OF ab, THEN conjunct2, THEN conjunct1])
    show "a \<notin> peers (create_mesh_topology reg hs ra)"
      by (rule q[OF ab, THEN conjunct2, THEN conjunct2, THEN conjunct1])
    show "peers (create_mesh_topology reg hs ra) = fst ` set reg - {a}"
      by (rule q[OF ab, THEN conjunct2, THEN conjunct2, THEN conjunct2])
  next
    show "create_mesh_topology reg (create_mesh_topology reg hs) = create_mesh_topology reg hs"
      by (rule create_mesh_topology_idem)
  qed
qed

theorem mesh_topology_full_witness:
  "distinct (map snd ex_ha_registry)
   \<and> peers (create_mesh_topology ex_ha_registry ex_store 0) = {''HA456'', ''HA789''}
   \<and> ''HA123'' \<in> peers (create_mesh_topology ex_ha_registry ex_store 1)
   \<and> ''HA456'' \<in> peers (create_mesh_topology ex_ha_registry ex_store 0)
   \<and> ''HA123'' \<notin> peers (create_mesh_topology ex_ha_registry ex_store 0)"
proof -
  have d: "distinct (map snd ex_ha_registry)" by (simp add: ex_ha_registry_def)
  have m: "(''HA123'', 0) \<in> set ex_ha_registry" "(''HA456'', 1) \<in> set ex_ha_registry"
    by (simp_all add: ex_ha_registry_def)
  have k: "fst ` set ex_ha_registry - {''HA123''} = {''HA456'', ''HA789''}"
    by (auto simp: ex_ha_registry_def)
  note inst = mesh_topology_full[OF d, of ex_store, THEN conjunct1, rule_format, OF conjI, OF m]
  have ne: "''HA123'' \<noteq> ''HA456''" by simp
  have 1: "peers (create_mesh_topology ex_ha_registry ex_store 0) = {''HA456'', ''HA789''}"
    using inst[THEN conjunct2, THEN conjunct2, THEN conjunct2] unfolding k .
  have 2: "''HA456'' \<in> peers (create_mesh_topology ex_ha_registry ex_store 0)"
    using inst[THEN conjunct1] ne by (rule iffD2)
  have 3: "''HA123'' \<in> peers (create_mesh_topology ex_ha_registry ex_store 1)"
    using inst[THEN conjunct2, THEN conjunct1] 2 by (rule iffD1)
  have 4: "''HA123'' \<notin> peers (create_mesh_topology ex_ha_registry ex_store 0)"
    by (rule inst[THEN conjunct2, THEN conjunct2, THEN conjunct1])
  show ?thesis by (intro conjI d 1 3 2 4)
qed

section \<open>Further properties\<close>

text \<open>
  The relay forwards without reading the payload: what \<open>handle_registration_request\<close>
  returns and the store it leaves are what the authority's \<open>process_registration\<close> gives
  for the request as the node built it, and the only change to the request is the
  relay's nonce.
\<close>

theorem relay_is_transparent:
  "fst (handle_registration_request c fa mn ha reg outcome hs)
     = fst (process_registration c ha fa mn reg outcome hs)
   \<and> snd (snd (handle_registration_request c fa mn ha reg outcome hs))
     = snd (process_registration c ha fa mn reg outcome hs)
   \<and> fst (snd (handle_registration_request c fa mn ha reg outcome hs))
     = reg\<lparr>nonce := Some (nonce_fa fa)\<rparr>"
  by (cases "rd_temp_identity (data reg) = Some (generate_hash c (mn_identity mn @ rd_nonce_mn (data reg)))")
     (simp_all add: handle_registration_request_eq data_add_nonce process_registration_match
        process_registration_mismatch add_nonce_def)

text \<open>
  \<open>release_ip\<close> removes the address if it is held and does nothing otherwise, so a second
  release changes nothing; a released address can be assigned again at once.
\<close>

theorem release_then_assign:
  "release_ip a (release_ip a S) = release_ip a S
   \<and> a \<notin> release_ip a S
   \<and> release_ip a S = S - {a}
   \<and> (network_id_map t = Some nid \<longrightarrow>
        assign_ip t (\<lambda>i. d) (release_ip (ip_of nid d) S)
          = Some (Inr (ip_of nid d), insert (ip_of nid d) (release_ip (ip_of nid d) S)))"
proof -
  have r: "release_ip a S = S - {a}" for a S by (auto simp: release_ip_def)
  have "assign_ip t (\<lambda>i. d) (release_ip (ip_of nid d) S)
          = Some (Inr (ip_of nid d), insert (ip_of nid d) (release_ip (ip_of nid d) S))"
    if "network_id_map t = Some nid"
    by (rule assign_ip_const_draw[OF that]) (simp add: r)
  then show ?thesis by (simp add: r)
qed

theorem release_then_assign_witness:
  "network_id_map ''fa'' = Some ''192.168.2''
   \<and> assign_ip ''fa'' (\<lambda>i. 1) (release_ip ''192.168.2.1'' {''192.168.2.1'', ''192.168.1.1''})
       = Some (Inr ''192.168.2.1'', {''192.168.2.1'', ''192.168.1.1''})"
proof -
  have m: "network_id_map ''fa'' = Some ''192.168.2''" by (simp add: network_id_map_def)
  have i: "ip_of ''192.168.2'' 1 = ''192.168.2.1''" by (simp add: pool_eval)
  have s: "insert ''192.168.2.1'' (release_ip ''192.168.2.1'' {''192.168.2.1'', ''192.168.1.1''})
     = {''192.168.2.1'', ''192.168.1.1''}" by (auto simp: release_ip_def)
  from release_then_assign[where t = "''fa''" and nid = "''192.168.2''" and d = 1
      and S = "{''192.168.2.1'', ''192.168.1.1''}" and a = "''192.168.2.1''",
      THEN conjunct2, THEN conjunct2, THEN conjunct2, rule_format, OF m]
  have "assign_ip ''fa'' (\<lambda>i. 1) (release_ip ''192.168.2.1'' {''192.168.2.1'', ''192.168.1.1''})
       = Some (Inr ''192.168.2.1'', {''192.168.2.1'', ''192.168.1.1''})"
    unfolding i s .
  with m show ?thesis by (intro conjI)
qed

text \<open>
  \<open>assign_ip\<close> raises \<open>ValueError\<close> for every entity type other than \<open>"mn"\<close>, \<open>"fa"\<close> and
  \<open>"ha"\<close>, leaving the pool as it was, and for none of these three.
\<close>

theorem assign_ip_unknown_class:
  "(entity_type \<notin> {''mn'', ''fa'', ''ha''} \<longrightarrow>
      assign_ip entity_type draws S = Some (Inl (ValueError (''Unknown entity type: '' @ entity_type)), S))
   \<and> (entity_type \<in> {''mn'', ''fa'', ''ha''} \<longrightarrow>
      (\<forall>e S'. assign_ip entity_type draws S \<noteq> Some (Inl e, S')))"
proof -
  have k: "network_id_map entity_type = None \<longleftrightarrow> entity_type \<notin> {''mn'', ''fa'', ''ha''}"
    by (simp add: network_id_map_def)
  have 1: "assign_ip entity_type draws S = Some (Inl (ValueError (''Unknown entity type: '' @ entity_type)), S)"
    if "entity_type \<notin> {''mn'', ''fa'', ''ha''}"
    using that k by (simp add: assign_ip_def)
  have 2: "assign_ip entity_type draws S \<noteq> Some (Inl e, S')" if "entity_type \<in> {''mn'', ''fa'', ''ha''}" for e S'
    using that k assign_ip_Inl[of entity_type draws S e S'] by auto
  show ?thesis using 1 2 by (intro conjI impI allI)
qed

theorem assign_ip_unknown_class_witness:
  "assign_ip ''bs'' (\<lambda>i. 0) {''10.1.0.0''}
     = Some (Inl (ValueError ''Unknown entity type: bs''), {''10.1.0.0''})"
proof -
  have n: "''bs'' \<notin> {''mn'', ''fa'', ''ha''}" by simp
  from assign_ip_unknown_class[of "''bs''" "\<lambda>i. 0" "{''10.1.0.0''}", THEN conjunct1, rule_format, OF n]
  show ?thesis by simp
qed

end
